theory Spec2Isabelle
  imports Complex_Main "HOL-Library.Multiset"
begin

section \<open>The deterministic video scheduler of \<open>video-scheduler.js\<close>\<close>

text \<open>
  The class \<open>VideoScheduler\<close> is embedded with explicit state passing: every method takes
  the scheduler object (and what it reads from its host: the clock, the process environment,
  the directory listing, the time zone) and returns its result together with the updated
  object. JavaScript numbers that hold integers are modelled as \<open>int\<close>, the interference
  level and its threshold (finite doubles that are only compared) as \<open>rat\<close>.
\<close>

subsection \<open>JavaScript values, remainder and arrays\<close>

text \<open>
  A value that a variable holding an item can take: \<open>undefined\<close>, \<open>null\<close> or a proper
  item (a file name in the program).
\<close>

datatype 'a jsval = Undefined | Null | Val 'a

text \<open>
  The operator \<open>%\<close> of JavaScript truncates: the result has the sign of the dividend.
\<close>

definition js_rem :: "int \<Rightarrow> int \<Rightarrow> int" where
  "js_rem a b = sgn a * (\<bar>a\<bar> mod \<bar>b\<bar>)"

text \<open>
  An array object: its indexed elements and its other integer-keyed properties. Reading
  an index outside \<open>0 .. length - 1\<close> yields \<open>undefined\<close> unless a property of that
  name was stored before; writing at a negative index stores a property and leaves the
  elements alone; writing at or beyond the length extends the array.
\<close>

record 'a jsarray =
  elems :: "'a jsval list"
  extra :: "int \<Rightarrow> 'a jsval"

definition array_of :: "'a jsval list \<Rightarrow> 'a jsarray" where
  "array_of xs = \<lparr>elems = xs, extra = (\<lambda>_. Undefined)\<rparr>"

definition aget :: "'a jsarray \<Rightarrow> int \<Rightarrow> 'a jsval" where
  "aget a i =
     (if i < 0 then extra a i
      else if nat i < length (elems a) then elems a ! nat i
      else Undefined)"

definition aset :: "'a jsarray \<Rightarrow> int \<Rightarrow> 'a jsval \<Rightarrow> 'a jsarray" where
  "aset a i v =
     (if i < 0 then a\<lparr>extra := (extra a)(i := v)\<rparr>
      else if nat i < length (elems a) then a\<lparr>elems := (elems a)[nat i := v]\<rparr>
      else a\<lparr>elems := elems a @ replicate (nat i - length (elems a)) Undefined @ [v]\<rparr>)"

subsection \<open>The scheduler object\<close>

text \<open>The field \<open>this.schedule\<close> (lines 16--23).\<close>

record 'a schedule =
  generated :: "int option"
  shuffledOrder :: "'a jsarray"
  currentIndex :: int
  totalPlayed :: int
  staticDetected :: bool
  currentVideo :: "'a jsval"

text \<open>The field \<open>this.config\<close> (lines 25--34).\<close>

record config =
  shuffleSeed :: "int option"
  scheduleRebuildInterval :: int
  staticDetectionThreshold :: rat
  maxStaticDuration :: int
  videoTransitionDelay :: int
  regenerateOnBuild :: bool
  timezoneMode :: string
  dailySeedReset :: bool

text \<open>
  A configuration record as it is found in \<open>scheduler-config.json\<close>: any field may be
  missing. \<open>as_patch\<close> is the record that \<open>saveConfig\<close> writes, with every field.
\<close>

record config_patch =
  p_shuffleSeed :: "int option option"
  p_scheduleRebuildInterval :: "int option"
  p_staticDetectionThreshold :: "rat option"
  p_maxStaticDuration :: "int option"
  p_videoTransitionDelay :: "int option"
  p_regenerateOnBuild :: "bool option"
  p_timezoneMode :: "string option"
  p_dailySeedReset :: "bool option"

definition as_patch :: "config \<Rightarrow> config_patch" where
  "as_patch c =
     \<lparr>p_shuffleSeed = Some (shuffleSeed c),
      p_scheduleRebuildInterval = Some (scheduleRebuildInterval c),
      p_staticDetectionThreshold = Some (staticDetectionThreshold c),
      p_maxStaticDuration = Some (maxStaticDuration c),
      p_videoTransitionDelay = Some (videoTransitionDelay c),
      p_regenerateOnBuild = Some (regenerateOnBuild c),
      p_timezoneMode = Some (timezoneMode c),
      p_dailySeedReset = Some (dailySeedReset c)\<rparr>"

text \<open>The object spread \<open>{ ...this.config, ...data }\<close>: a field of \<open>data\<close> wins.\<close>

definition spread_config :: "config \<Rightarrow> config_patch \<Rightarrow> config" where
  "spread_config c d =
     \<lparr>shuffleSeed = (case p_shuffleSeed d of Some v \<Rightarrow> v | None \<Rightarrow> shuffleSeed c),
      scheduleRebuildInterval =
        (case p_scheduleRebuildInterval d of Some v \<Rightarrow> v | None \<Rightarrow> scheduleRebuildInterval c),
      staticDetectionThreshold =
        (case p_staticDetectionThreshold d of Some v \<Rightarrow> v | None \<Rightarrow> staticDetectionThreshold c),
      maxStaticDuration =
        (case p_maxStaticDuration d of Some v \<Rightarrow> v | None \<Rightarrow> maxStaticDuration c),
      videoTransitionDelay =
        (case p_videoTransitionDelay d of Some v \<Rightarrow> v | None \<Rightarrow> videoTransitionDelay c),
      regenerateOnBuild =
        (case p_regenerateOnBuild d of Some v \<Rightarrow> v | None \<Rightarrow> regenerateOnBuild c),
      timezoneMode = (case p_timezoneMode d of Some v \<Rightarrow> v | None \<Rightarrow> timezoneMode c),
      dailySeedReset = (case p_dailySeedReset d of Some v \<Rightarrow> v | None \<Rightarrow> dailySeedReset c)\<rparr>"

text \<open>
  What the scheduler writes to the console, one constructor per \<open>console.log\<close> or
  \<open>console.error\<close> site that the modelled methods reach.
\<close>

datatype 'a event =
    LogConfigLoaded
  | LogConfigError
  | LogScheduleSaved
  | LogScheduleSaveError
  | LogConfigSaveError
  | LogNoVideosFound
  | LogUsingExisting
  | LogGenerating nat
  | LogGenerated
  | LogStaticDetected rat
  | LogStaticCleared
  | LogStopping "'a jsval"
  | LogStaticSkip
  | LogNoVideosInSchedule
  | LogPlaying "'a jsval"
  | LogCycleComplete nat

text \<open>The content of a JSON file on disk, as \<open>fs.readJson\<close> finds it.\<close>

datatype 'f jsonfile = Missing | Corrupt | Json 'f

text \<open>
  The object itself, with the part of the host it acts on: the two JSON files, the pending
  timeouts of the event loop (by handle, with their delay), the next free timer handle,
  and the console.
\<close>

record 'a scheduler =
  schedule :: "'a schedule"
  config :: config
  isStaticActive :: bool
  staticTimer :: "nat option"
  videoTimer :: "nat option"
  scheduleFile :: "'a schedule jsonfile"
  configFile :: "config_patch jsonfile"
  timers :: "(nat \<times> int) list"
  nextHandle :: nat
  console :: "'a event list"

definition say :: "'a event \<Rightarrow> 'a scheduler \<Rightarrow> 'a scheduler" where
  "say e s = s\<lparr>console := console s @ [e]\<rparr>"

text \<open>The constructor (lines 11--39).\<close>

definition default_config :: config where
  "default_config =
     \<lparr>shuffleSeed = None, scheduleRebuildInterval = 3600000,
      staticDetectionThreshold = 3 / 10, maxStaticDuration = 5000,
      videoTransitionDelay = 2000, regenerateOnBuild = True,
      timezoneMode = ''utc'', dailySeedReset = True\<rparr>"

definition constructor :: "'a schedule jsonfile \<Rightarrow> config_patch jsonfile \<Rightarrow> 'a scheduler" where
  "constructor sf cf =
     \<lparr>schedule = \<lparr>generated = None, shuffledOrder = array_of [], currentIndex = 0,
                  totalPlayed = 0, staticDetected = False, currentVideo = Null\<rparr>,
      config = default_config,
      isStaticActive = False, staticTimer = None, videoTimer = None,
      scheduleFile = sf, configFile = cf, timers = [], nextHandle = 0, console = []\<rparr>"

text \<open>
  \<open>setTimeout\<close> registers a timeout and returns its handle; \<open>clearTimeout\<close> removes it.
  The callback that \<open>onStaticDetected\<close> registers (lines 231--235) changes no field: when
  it runs it writes one message if interference is still active.
\<close>

definition setTimeout :: "int \<Rightarrow> 'a scheduler \<Rightarrow> nat \<times> 'a scheduler" where
  "setTimeout delay s =
     (nextHandle s, s\<lparr>timers := timers s @ [(nextHandle s, delay)], nextHandle := Suc (nextHandle s)\<rparr>)"

definition clearTimeout :: "nat \<Rightarrow> 'a scheduler \<Rightarrow> 'a scheduler" where
  "clearTimeout h s = s\<lparr>timers := filter (\<lambda>t. fst t \<noteq> h) (timers s)\<rparr>"

text \<open>
  \<open>saveSchedule\<close> and \<open>saveConfig\<close> (lines 84--99). A failing write is caught and
  reported on the console; the flag \<open>diskOk\<close> says whether the write goes through.
\<close>

definition saveSchedule :: "bool \<Rightarrow> 'a scheduler \<Rightarrow> 'a scheduler" where
  "saveSchedule diskOk s =
     (if diskOk then say LogScheduleSaved (s\<lparr>scheduleFile := Json (schedule s)\<rparr>)
      else say LogScheduleSaveError s)"

definition saveConfig :: "bool \<Rightarrow> 'a scheduler \<Rightarrow> 'a scheduler" where
  "saveConfig diskOk s =
     (if diskOk then s\<lparr>configFile := Json (as_patch (config s))\<rparr>
      else say LogConfigSaveError s)"

subsection \<open>Interference guard and playback\<close>

text \<open>
  \<open>stopCurrentVideo\<close> (lines 249--260). \<open>null\<close> and \<open>undefined\<close> are falsy; an item is
  the name of a video file, which is not empty, hence truthy.
\<close>

definition truthy_item :: "'a jsval \<Rightarrow> bool" where
  "truthy_item v = (case v of Val _ \<Rightarrow> True | _ \<Rightarrow> False)"

definition stopCurrentVideo :: "'a scheduler \<Rightarrow> 'a scheduler" where
  "stopCurrentVideo s =
     (if truthy_item (currentVideo (schedule s)) then
        let s1 = say (LogStopping (currentVideo (schedule s))) s;
            s2 = s1\<lparr>schedule := (schedule s1)\<lparr>currentVideo := Null\<rparr>\<rparr>
        in (case videoTimer s2 of
              Some h \<Rightarrow> (clearTimeout h s2)\<lparr>videoTimer := None\<rparr>
            | None \<Rightarrow> s2)
      else s)"

text \<open>\<open>onStaticDetected\<close> (lines 223--247).\<close>

definition onStaticDetected :: "rat \<Rightarrow> 'a scheduler \<Rightarrow> 'a scheduler" where
  "onStaticDetected level s =
     (if level > staticDetectionThreshold (config s) then
        (if \<not> isStaticActive s then
           let s1 = say (LogStaticDetected level) s;
               s2 = s1\<lparr>isStaticActive := True\<rparr>;
               s3 = stopCurrentVideo s2;
               (h, s4) = setTimeout (maxStaticDuration (config s3)) s3
           in s4\<lparr>staticTimer := Some h\<rparr>
         else s)
      else
        (if isStaticActive s then
           let s1 = say LogStaticCleared s;
               s2 = s1\<lparr>isStaticActive := False\<rparr>
           in (case staticTimer s2 of
                 Some h \<Rightarrow> (clearTimeout h s2)\<lparr>staticTimer := None\<rparr>
               | None \<Rightarrow> s2)
         else s))"

text \<open>\<open>playNextVideo\<close> (lines 262--290).\<close>

definition playNextVideo :: "bool \<Rightarrow> 'a scheduler \<Rightarrow> 'a jsval \<times> 'a scheduler" where
  "playNextVideo diskOk s =
     (if isStaticActive s then (Null, say LogStaticSkip s)
      else if length (elems (shuffledOrder (schedule s))) = 0 then
        (Null, say LogNoVideosInSchedule s)
      else
        let video = aget (shuffledOrder (schedule s)) (currentIndex (schedule s));
            s1 = s\<lparr>schedule := (schedule s)\<lparr>currentVideo := video,
                                              totalPlayed := totalPlayed (schedule s) + 1\<rparr>\<rparr>;
            s2 = say (LogPlaying video) s1;
            s3 = s2\<lparr>schedule := (schedule s2)
                   \<lparr>currentIndex := js_rem (currentIndex (schedule s2) + 1)
                                      (int (length (elems (shuffledOrder (schedule s2)))))\<rparr>\<rparr>;
            s4 = (if currentIndex (schedule s3) = 0
                  then say (LogCycleComplete (length (elems (shuffledOrder (schedule s3))))) s3
                  else s3)
        in (video, saveSchedule diskOk s4))"


subsection \<open>Loading the configuration\<close>

text \<open>
  \<open>loadConfig\<close> (lines 72--82): an existing, readable file is spread over the current
  configuration; a missing file changes nothing; a read error is caught and reported.
\<close>

definition loadConfig :: "'a scheduler \<Rightarrow> 'a scheduler" where
  "loadConfig s =
     (case configFile s of
        Json data \<Rightarrow> say LogConfigLoaded (s\<lparr>config := spread_config (config s) data\<rparr>)
      | Missing \<Rightarrow> s
      | Corrupt \<Rightarrow> say LogConfigError s)"

subsection \<open>Dates\<close>

text \<open>
  A \<open>Date\<close> is its time value, the milliseconds since 1970-01-01T00:00:00Z. The methods
  \<open>getUTCFullYear\<close>, \<open>getUTCMonth\<close> (0 for January) and \<open>getUTCDate\<close> read the civil date
  of the day number \<open>Day t\<close> in the proleptic Gregorian calendar; \<open>civil_from_days\<close> and
  \<open>days_from_civil\<close> compute that calendar with the era-based arithmetic (eras of 400
  years starting on 1 March), with months counted from 1.
\<close>

definition msPerDay :: int where
  "msPerDay = 24 * 60 * 60 * 1000"

definition Day :: "int \<Rightarrow> int" where
  "Day t = t div msPerDay"

definition civil_from_days :: "int \<Rightarrow> int \<times> int \<times> int" where
  "civil_from_days z0 =
     (let z = z0 + 719468;
          era = z div 146097;
          doe = z - era * 146097;
          yoe = (doe - doe div 1460 + doe div 36524 - doe div 146096) div 365;
          y = yoe + era * 400;
          doy = doe - (365 * yoe + yoe div 4 - yoe div 100);
          mp = (5 * doy + 2) div 153;
          d = doy - (153 * mp + 2) div 5 + 1;
          m = (if mp < 10 then mp + 3 else mp - 9)
      in (if m \<le> 2 then y + 1 else y, m, d))"

definition days_from_civil :: "int \<Rightarrow> int \<Rightarrow> int \<Rightarrow> int" where
  "days_from_civil y0 m d =
     (let y = (if m \<le> 2 then y0 - 1 else y0);
          era = y div 400;
          yoe = y - era * 400;
          doy = (153 * (if m > 2 then m - 3 else m + 9) + 2) div 5 + d - 1;
          doe = yoe * 365 + yoe div 4 - yoe div 100 + doy
      in era * 146097 + doe - 719468)"

definition getUTCFullYear :: "int \<Rightarrow> int" where
  "getUTCFullYear t = fst (civil_from_days (Day t))"

definition getUTCMonth :: "int \<Rightarrow> int" where
  "getUTCMonth t = fst (snd (civil_from_days (Day t))) - 1"

definition getUTCDate :: "int \<Rightarrow> int" where
  "getUTCDate t = snd (snd (civil_from_days (Day t)))"

text \<open>
  \<open>new Date(year, month, date)\<close> reads its arguments as a date and midnight in the
  \<^emph>\<open>local\<close> time zone of the host: the time value is that of the civil date at
  00:00 UTC minus the zone's offset from UTC (\<open>tza\<close>, in milliseconds, positive east of
  Greenwich; a zone with a fixed offset). A year from 0 to 99 means 1900 + year. The
  month is one that \<open>getUTCMonth\<close> returned, so it lies in 0..11.
\<close>

definition new_Date_local :: "int \<Rightarrow> int \<Rightarrow> int \<Rightarrow> int \<Rightarrow> int" where
  "new_Date_local tza year month date =
     (let yr = (if 0 \<le> year \<and> year \<le> 99 then 1900 + year else year)
      in days_from_civil yr (month + 1) date * msPerDay - tza)"

subsection \<open>Seed generator\<close>

text \<open>
  \<open>generateUTCSeed\<close> (lines 113--130). \<open>tza\<close> is the host's time zone, \<open>now\<close> the value
  of \<open>new Date()\<close>, \<open>date\<close> the argument (\<open>None\<close> for \<open>null\<close>). The round trip
  \<open>new Date(targetDate.toISOString())\<close> keeps the time value. Time values are those of
  valid dates, and the quotients by the lengths of a day and of an hour are taken exactly.
\<close>

definition generateUTCSeed :: "config \<Rightarrow> int \<Rightarrow> int \<Rightarrow> int option \<Rightarrow> int" where
  "generateUTCSeed cfg tza now date =
     (let targetDate = (case date of Some d \<Rightarrow> d | None \<Rightarrow> now) in
      if dailySeedReset cfg then
        let utcDate = targetDate;
            utcMidnight = new_Date_local tza (getUTCFullYear utcDate) (getUTCMonth utcDate)
                            (getUTCDate utcDate);
            daysSinceEpoch = utcMidnight div (24 * 60 * 60 * 1000)
        in js_rem (daysSinceEpoch * 31) 1000000
      else
        let utcHour = targetDate div (60 * 60 * 1000)
        in js_rem (utcHour * 17) 1000000)"

subsection \<open>Shuffle engine\<close>

text \<open>
  Arrays live in a store, a list of array objects addressed by position; a new array is
  appended. The swap \<open>[a[i], a[j]] = [a[j], a[i]]\<close> reads \<open>a[j]\<close>, then \<open>a[i]\<close>, then
  writes \<open>a[i]\<close>, then \<open>a[j]\<close>.
\<close>

type_synonym 'a heap = "'a jsarray list"

definition swap_elems :: "'a heap \<Rightarrow> nat \<Rightarrow> int \<Rightarrow> int \<Rightarrow> 'a heap" where
  "swap_elems h p i j =
     (let x = aget (h ! p) j;
          y = aget (h ! p) i;
          h1 = h[p := aset (h ! p) i x]
      in h1[p := aset (h1 ! p) j y])"

text \<open>
  The seeded loop (lines 140--149). The last argument is \<open>currentIndex\<close>, which counts
  down from the length to 0; \<open>random()\<close> steps the linear congruential generator and
  returns \<open>seed / 233280\<close>.
\<close>

fun shuffle_seeded :: "'a heap \<Rightarrow> nat \<Rightarrow> int \<Rightarrow> nat \<Rightarrow> 'a heap" where
  "shuffle_seeded h p seed 0 = h"
| "shuffle_seeded h p seed (Suc n) =
     (let seed' = js_rem (seed * 9301 + 49297) 233280;
          randomIndex = \<lfloor>(of_int seed' / 233280 :: rat) * of_nat (Suc n)\<rfloor>
      in shuffle_seeded (swap_elems h p (int n) randomIndex) p seed' n)"

text \<open>
  The unseeded loop (lines 152--156); \<open>rnd k\<close> is what the \<open>k\<close>-th call of
  \<open>Math.random()\<close> returns.
\<close>

fun shuffle_random :: "(nat \<Rightarrow> rat) \<Rightarrow> 'a heap \<Rightarrow> nat \<Rightarrow> nat \<Rightarrow> nat \<Rightarrow> 'a heap" where
  "shuffle_random rnd h p k 0 = h"
| "shuffle_random rnd h p k (Suc n) =
     (let randomIndex = \<lfloor>rnd k * of_nat (Suc n)\<rfloor>
      in shuffle_random rnd (swap_elems h p (int n) randomIndex) p (Suc k) n)"

text \<open>
  \<open>shuffleArray\<close> (lines 133--160): \<open>array\<close> is the address of the argument, the result
  is the address of the new array \<open>shuffled\<close> and the store. The spread \<open>[...array]\<close>
  copies the elements only.
\<close>

definition shuffleArray ::
  "(nat \<Rightarrow> rat) \<Rightarrow> 'a heap \<Rightarrow> nat \<Rightarrow> int option \<Rightarrow> nat \<times> 'a heap" where
  "shuffleArray rnd h array seed =
     (let shuffled = length h;
          h1 = h @ [array_of (elems (h ! array))];
          currentIndex = length (elems (h1 ! shuffled))
      in (shuffled,
          case seed of
            Some sd \<Rightarrow> shuffle_seeded h1 shuffled sd currentIndex
          | None \<Rightarrow> shuffle_random rnd h1 shuffled 0 currentIndex))"

text \<open>The array that \<open>shuffleArray\<close> returns for a list of items held in an array of its own.\<close>

definition shuffled_items :: "(nat \<Rightarrow> rat) \<Rightarrow> 'a list \<Rightarrow> int option \<Rightarrow> 'a jsarray" where
  "shuffled_items rnd items seed =
     (let (p, h) = shuffleArray rnd [array_of (map Val items)] 0 seed in h ! p)"

subsection \<open>Schedule state manager\<close>

text \<open>
  What \<open>generateSchedule\<close> reads from its host: the clock at \<open>Date.now()\<close> (line 171)
  and at \<open>new Date()\<close> (line 115), the time zone, \<open>process.env.NODE_ENV\<close> and
  \<open>process.env.BUILD_ENV\<close>, the sorted list of video files that \<open>getVideoFiles\<close> returns,
  whether writes to disk succeed, and \<open>Math.random\<close>.
\<close>

record 'a host =
  dateNow :: int
  newDate :: int
  localTZA :: int
  nodeEnv :: "string option"
  buildEnv :: "string option"
  videoFiles :: "'a list"
  diskOk :: bool
  mathRandom :: "nat \<Rightarrow> rat"

text \<open>The age of a schedule: a number of milliseconds or \<open>Infinity\<close>.\<close>

datatype age = Finite int | Infinity

definition age_ge :: "age \<Rightarrow> int \<Rightarrow> bool" where
  "age_ge a i = (case a of Finite x \<Rightarrow> x \<ge> i | Infinity \<Rightarrow> True)"

text \<open>Truthiness of \<open>this.schedule.generated\<close> (neither \<open>null\<close> nor 0) and of a variable of the environment (set and not empty).\<close>

definition truthy_num :: "int option \<Rightarrow> bool" where
  "truthy_num g = (case g of Some x \<Rightarrow> x \<noteq> 0 | None \<Rightarrow> False)"

definition truthy_str :: "string option \<Rightarrow> bool" where
  "truthy_str v = (case v of Some x \<Rightarrow> x \<noteq> [] | None \<Rightarrow> False)"

text \<open>The test \<open>shouldRegenerate\<close> (lines 171--184).\<close>

definition isBuildEnvironment :: "'a host \<Rightarrow> 'a scheduler \<Rightarrow> bool" where
  "isBuildEnvironment host s =
     (nodeEnv host = Some ''production'' \<or> truthy_str (buildEnv host)
      \<or> regenerateOnBuild (config s))"

definition scheduleAge :: "'a host \<Rightarrow> 'a scheduler \<Rightarrow> age" where
  "scheduleAge host s =
     (case generated (schedule s) of
        Some g \<Rightarrow> if g \<noteq> 0 then Finite (dateNow host - g) else Infinity
      | None \<Rightarrow> Infinity)"

definition shouldRegenerate :: "'a host \<Rightarrow> bool \<Rightarrow> 'a scheduler \<Rightarrow> bool" where
  "shouldRegenerate host forceRegenerate s =
     (forceRegenerate \<or> isBuildEnvironment host s
      \<or> \<not> truthy_num (generated (schedule s))
      \<or> length (elems (shuffledOrder (schedule s))) \<noteq> length (videoFiles host)
      \<or> age_ge (scheduleAge host s) (scheduleRebuildInterval (config s)))"

text \<open>\<open>generateSchedule\<close> (lines 162--213).\<close>

definition generateSchedule :: "'a host \<Rightarrow> bool \<Rightarrow> 'a scheduler \<Rightarrow> bool \<times> 'a scheduler" where
  "generateSchedule host forceRegenerate s =
     (let videos = videoFiles host in
      if length videos = 0 then (False, say LogNoVideosFound s)
      else if \<not> shouldRegenerate host forceRegenerate s then (True, say LogUsingExisting s)
      else
        let s1 = say (LogGenerating (length videos)) s;
            s2 = s1\<lparr>config := (config s1)
                   \<lparr>shuffleSeed := Some (generateUTCSeed (config s1) (localTZA host) (newDate host) None)\<rparr>\<rparr>;
            s3 = s2\<lparr>schedule := (schedule s2)
                   \<lparr>shuffledOrder := shuffled_items (mathRandom host) videos (shuffleSeed (config s2)),
                    currentIndex := 0,
                    totalPlayed := 0,
                    generated := Some (dateNow host)\<rparr>\<rparr>;
            s4 = saveConfig (diskOk host) s3;
            s5 = saveSchedule (diskOk host) s4
        in (True, say LogGenerated s5))"

subsection \<open>Sequences of operations\<close>

text \<open>
  The operations that act on a running scheduler: an interference report, a request for
  the next video, a call of \<open>generateSchedule\<close>, and \<open>stopCurrentVideo\<close>.
\<close>

datatype 'a operation =
    Report rat
  | Advance bool
  | Generate "'a host" bool
  | Stop

fun step :: "'a scheduler \<Rightarrow> 'a operation \<Rightarrow> 'a scheduler" where
  "step s (Report level) = onStaticDetected level s"
| "step s (Advance ok) = snd (playNextVideo ok s)"
| "step s (Generate host force) = snd (generateSchedule host force s)"
| "step s Stop = stopCurrentVideo s"

definition run :: "'a scheduler \<Rightarrow> 'a operation list \<Rightarrow> 'a scheduler" where
  "run s ops = foldl step s ops"

text \<open>
  The videos returned by successive calls of \<open>playNextVideo\<close>, with the scheduler after
  the last one.
\<close>

fun play_many :: "bool \<Rightarrow> nat \<Rightarrow> 'a scheduler \<Rightarrow> 'a jsval list \<times> 'a scheduler" where
  "play_many ok 0 s = ([], s)"
| "play_many ok (Suc k) s =
     (let (v, s1) = playNextVideo ok s;
          (vs, s2) = play_many ok k s1
      in (v # vs, s2))"

subsection \<open>Example states\<close>

text \<open>
  A scheduler holding a schedule of three videos with the cursor at the start, built
  with \<open>regenerateOnBuild\<close> switched off, and the same scheduler after a report of 50\%
  interference (above the default threshold of 30\%).
\<close>

definition demo :: "string scheduler" where
  "demo = (constructor Missing Missing)
     \<lparr>schedule :=
        \<lparr>generated = Some 1759752000000,
         shuffledOrder = array_of [Val ''a.mp4'', Val ''b.mp4'', Val ''c.mp4''],
         currentIndex = 0, totalPlayed = 0, staticDetected = False, currentVideo = Null\<rparr>,
      config := default_config\<lparr>regenerateOnBuild := False\<rparr>\<rparr>"

definition demo_suppressed :: "string scheduler" where
  "demo_suppressed = onStaticDetected (1 / 2) demo"

text \<open>
  A host on 2025-10-06 at 12:10 UTC, ten minutes after \<open>demo\<close> was generated, in a zone
  without offset, outside a build, with the three videos on disk.
\<close>

definition demo_host :: "string host" where
  "demo_host =
     \<lparr>dateNow = 1759752600000, newDate = 1759752600000, localTZA = 0,
      nodeEnv = None, buildEnv = None,
      videoFiles = [''a.mp4'', ''b.mp4'', ''c.mp4''],
      diskOk = True, mathRandom = (\<lambda>_. 0)\<rparr>"

text \<open>
  A configuration file that holds nothing but a negative interference threshold, and a
  scheduler that was constructed with this file on disk.
\<close>

definition negative_threshold :: config_patch where
  "negative_threshold =
     \<lparr>p_shuffleSeed = None, p_scheduleRebuildInterval = None,
      p_staticDetectionThreshold = Some (- 1), p_maxStaticDuration = None,
      p_videoTransitionDelay = None, p_regenerateOnBuild = None,
      p_timezoneMode = None, p_dailySeedReset = None\<rparr>"

definition misconfigured :: "string scheduler" where
  "misconfigured = constructor Missing (Json negative_threshold)"

text \<open>The example scheduler after it has served its three videos once.\<close>

definition demo_played :: "string scheduler" where
  "demo_played = snd (play_many True 3 demo)"

text \<open>A store that holds one array, the three videos in directory order.\<close>

definition demo_heap :: "string heap" where
  "demo_heap = [array_of [Val ''a.mp4'', Val ''b.mp4'', Val ''c.mp4'']]"

text \<open>
  A scheduler as the constructor leaves it, with the default configuration, and a host two
  hours east of Greenwich whose clock reads the epoch, 1970-01-01T00:00:00Z, with the
  three videos on disk.
\<close>

definition fresh :: "string scheduler" where
  "fresh = constructor Missing Missing"

definition epoch_host :: "string host" where
  "epoch_host =
     \<lparr>dateNow = 0, newDate = 0, localTZA = 7200000,
      nodeEnv = None, buildEnv = None,
      videoFiles = [''a.mp4'', ''b.mp4'', ''c.mp4''],
      diskOk = True, mathRandom = (\<lambda>_. 0)\<rparr>"

section \<open>Properties\<close>

subsection \<open>Serving the next video\<close>

lemma js_rem_nonneg: "0 \<le> a \<Longrightarrow> 0 < b \<Longrightarrow> js_rem a b = a mod b"
  by (simp add: js_rem_def sgn_if)

lemma aget_in_range:
  "0 \<le> i \<Longrightarrow> i < int (length (elems a)) \<Longrightarrow> aget a i = elems a ! nat i"
  by (simp add: aget_def nat_less_iff)

lemma playNextVideo_suppressed:
  "isStaticActive s \<Longrightarrow> playNextVideo ok s = (Null, say LogStaticSkip s)"
  by (simp add: playNextVideo_def)

lemma playNextVideo_clear:
  assumes "\<not> isStaticActive s" and "elems (shuffledOrder (schedule s)) \<noteq> []"
  shows "fst (playNextVideo ok s) = aget (shuffledOrder (schedule s)) (currentIndex (schedule s))"
    and "schedule (snd (playNextVideo ok s)) =
           (schedule s)\<lparr>currentVideo := aget (shuffledOrder (schedule s)) (currentIndex (schedule s)),
                        totalPlayed := totalPlayed (schedule s) + 1,
                        currentIndex := js_rem (currentIndex (schedule s) + 1)
                                          (int (length (elems (shuffledOrder (schedule s)))))\<rparr>"
    and "isStaticActive (snd (playNextVideo ok s)) = isStaticActive s"
    and "config (snd (playNextVideo ok s)) = config s"
  using assms by (simp_all add: playNextVideo_def Let_def say_def saveSchedule_def)

text \<open>
  Claim C4, as the code has it. For a non-empty permutation \<open>playNextVideo\<close> first
  tests \<open>isStaticActive\<close>. While the flag is clear it returns
  \<open>shuffledOrder[currentIndex]\<close>, stores it in \<open>currentVideo\<close>, adds one to
  \<open>totalPlayed\<close> and moves \<open>currentIndex\<close> to \<open>(currentIndex + 1) % length\<close>, which
  for a cursor within the permutation is the item at the cursor and the successor modulo
  the length. While the flag is set it returns \<open>null\<close> and leaves the schedule as it is:
  the method itself gates on interference.
\<close>

theorem playNextVideo_serves_when_clear:
  assumes "elems (shuffledOrder (schedule s)) \<noteq> []"
  shows "(\<not> isStaticActive s \<longrightarrow>
            fst (playNextVideo ok s) = aget (shuffledOrder (schedule s)) (currentIndex (schedule s))
          \<and> currentVideo (schedule (snd (playNextVideo ok s))) = fst (playNextVideo ok s)
          \<and> totalPlayed (schedule (snd (playNextVideo ok s))) = totalPlayed (schedule s) + 1
          \<and> currentIndex (schedule (snd (playNextVideo ok s))) =
              js_rem (currentIndex (schedule s) + 1) (int (length (elems (shuffledOrder (schedule s)))))
          \<and> (0 \<le> currentIndex (schedule s)
              \<and> currentIndex (schedule s) < int (length (elems (shuffledOrder (schedule s)))) \<longrightarrow>
                fst (playNextVideo ok s) = elems (shuffledOrder (schedule s)) ! nat (currentIndex (schedule s))
              \<and> currentIndex (schedule (snd (playNextVideo ok s))) =
                  (currentIndex (schedule s) + 1) mod int (length (elems (shuffledOrder (schedule s))))))
       \<and> (isStaticActive s \<longrightarrow>
            fst (playNextVideo ok s) = Null
          \<and> schedule (snd (playNextVideo ok s)) = schedule s)"
proof (cases "isStaticActive s")
  case True
  then show ?thesis by (simp add: playNextVideo_suppressed say_def)
next
  case False
  note clear = playNextVideo_clear [OF False assms, of ok]
  have "0 \<le> currentIndex (schedule s) \<Longrightarrow>
        js_rem (currentIndex (schedule s) + 1) (int (length (elems (shuffledOrder (schedule s))))) =
        (currentIndex (schedule s) + 1) mod int (length (elems (shuffledOrder (schedule s))))"
    using assms by (intro js_rem_nonneg) auto
  with False clear show ?thesis by (simp add: aget_in_range)
qed

theorem playNextVideo_serves_when_clear_witness:
  "fst (playNextVideo True demo) = Val ''a.mp4''
   \<and> currentVideo (schedule (snd (playNextVideo True demo))) = Val ''a.mp4''
   \<and> totalPlayed (schedule (snd (playNextVideo True demo))) = 1
   \<and> currentIndex (schedule (snd (playNextVideo True demo))) = 1
   \<and> fst (playNextVideo True demo_suppressed) = Null
   \<and> schedule (snd (playNextVideo True demo_suppressed)) = schedule demo_suppressed"
proof -
  have ne: "elems (shuffledOrder (schedule demo)) \<noteq> []"
    by (simp add: demo_def constructor_def array_of_def)
  have ne': "elems (shuffledOrder (schedule demo_suppressed)) \<noteq> []"
    by (simp add: demo_suppressed_def onStaticDetected_def demo_def constructor_def array_of_def
        default_config_def Let_def say_def stopCurrentVideo_def truthy_item_def setTimeout_def)
  have c: "\<not> isStaticActive demo" by (simp add: demo_def constructor_def)
  have a: "isStaticActive demo_suppressed"
    by (simp add: demo_suppressed_def onStaticDetected_def demo_def constructor_def array_of_def
        default_config_def Let_def say_def stopCurrentVideo_def truthy_item_def setTimeout_def)
  have v: "aget (shuffledOrder (schedule demo)) (currentIndex (schedule demo)) = Val ''a.mp4''"
    "currentIndex (schedule demo) = 0" "totalPlayed (schedule demo) = 0"
    "length (elems (shuffledOrder (schedule demo))) = 3"
    by (simp_all add: demo_def constructor_def array_of_def aget_def)
  from playNextVideo_serves_when_clear [OF ne, of True] c v
  have 1: "fst (playNextVideo True demo) = Val ''a.mp4''
   \<and> currentVideo (schedule (snd (playNextVideo True demo))) = Val ''a.mp4''
   \<and> totalPlayed (schedule (snd (playNextVideo True demo))) = 1
   \<and> currentIndex (schedule (snd (playNextVideo True demo))) = 1"
    by (simp add: js_rem_def)
  from playNextVideo_serves_when_clear [OF ne', of True] a
  have 2: "fst (playNextVideo True demo_suppressed) = Null
   \<and> schedule (snd (playNextVideo True demo_suppressed)) = schedule demo_suppressed"
    by simp
  from 1 2 show ?thesis by simp
qed

text \<open>
  Claim C4 as stated (the same result whatever the interference flag) fails on the
  suppressed example: the permutation is not empty and holds \<open>a.mp4\<close> at the cursor, yet
  the call returns \<open>null\<close>, and neither \<open>totalPlayed\<close> nor the cursor moves.
\<close>

theorem playNextVideo_gated_counterexample:
  "elems (shuffledOrder (schedule demo_suppressed)) \<noteq> []
   \<and> aget (shuffledOrder (schedule demo_suppressed)) (currentIndex (schedule demo_suppressed)) = Val ''a.mp4''
   \<and> fst (playNextVideo True demo_suppressed) = Null
   \<and> totalPlayed (schedule (snd (playNextVideo True demo_suppressed))) = totalPlayed (schedule demo_suppressed)
   \<and> currentIndex (schedule (snd (playNextVideo True demo_suppressed))) = 0"
  by (simp add: demo_suppressed_def onStaticDetected_def demo_def constructor_def array_of_def
        default_config_def Let_def say_def stopCurrentVideo_def truthy_item_def setTimeout_def
        playNextVideo_def aget_def)

subsection \<open>A full cycle\<close>

lemma playNextVideo_console:
  assumes "\<not> isStaticActive s" and "elems (shuffledOrder (schedule s)) \<noteq> []"
  shows "console (snd (playNextVideo ok s)) =
           console s @ [LogPlaying (fst (playNextVideo ok s))]
           @ (if currentIndex (schedule (snd (playNextVideo ok s))) = 0
              then [LogCycleComplete (length (elems (shuffledOrder (schedule s))))] else [])
           @ [if ok then LogScheduleSaved else LogScheduleSaveError]"
  using assms by (simp add: playNextVideo_def Let_def say_def saveSchedule_def)

lemma playNextVideo_step:
  assumes clear: "\<not> isStaticActive s"
    and c: "currentIndex (schedule s) = int c"
    and lt: "c < length (elems (shuffledOrder (schedule s)))"
  shows "fst (playNextVideo ok s) = elems (shuffledOrder (schedule s)) ! c"
    and "currentIndex (schedule (snd (playNextVideo ok s))) =
           int (Suc c mod length (elems (shuffledOrder (schedule s))))"
    and "shuffledOrder (schedule (snd (playNextVideo ok s))) = shuffledOrder (schedule s)"
    and "\<not> isStaticActive (snd (playNextVideo ok s))"
    and "totalPlayed (schedule (snd (playNextVideo ok s))) = totalPlayed (schedule s) + 1"
proof -
  from lt have ne: "elems (shuffledOrder (schedule s)) \<noteq> []" by auto
  note st = playNextVideo_clear [OF clear ne, of ok]
  show "fst (playNextVideo ok s) = elems (shuffledOrder (schedule s)) ! c"
    using st(1) c lt by (simp add: aget_in_range)
  have "js_rem (int c + 1) (int (length (elems (shuffledOrder (schedule s))))) =
        (int c + 1) mod int (length (elems (shuffledOrder (schedule s))))"
    using lt by (intro js_rem_nonneg) auto
  then show "currentIndex (schedule (snd (playNextVideo ok s))) =
           int (Suc c mod length (elems (shuffledOrder (schedule s))))"
    using st(2) c by (simp add: zmod_int add.commute)
  show "shuffledOrder (schedule (snd (playNextVideo ok s))) = shuffledOrder (schedule s)"
    using st(2) by simp
  show "\<not> isStaticActive (snd (playNextVideo ok s))" using st(3) clear by simp
  show "totalPlayed (schedule (snd (playNextVideo ok s))) = totalPlayed (schedule s) + 1"
    using st(2) by simp
qed

lemma play_many_Suc:
  "play_many ok (Suc k) s =
     (fst (playNextVideo ok s) # fst (play_many ok k (snd (playNextVideo ok s))),
      snd (play_many ok k (snd (playNextVideo ok s))))"
  by (simp add: split_beta)

lemma play_many_clear:
  assumes "\<not> isStaticActive s"
    and "currentIndex (schedule s) = int c"
    and "c + k \<le> length (elems (shuffledOrder (schedule s)))"
    and "c < length (elems (shuffledOrder (schedule s)))"
  shows "fst (play_many ok k s) = take k (drop c (elems (shuffledOrder (schedule s))))
       \<and> currentIndex (schedule (snd (play_many ok k s))) =
           int ((c + k) mod length (elems (shuffledOrder (schedule s))))
       \<and> shuffledOrder (schedule (snd (play_many ok k s))) = shuffledOrder (schedule s)
       \<and> \<not> isStaticActive (snd (play_many ok k s))
       \<and> totalPlayed (schedule (snd (play_many ok k s))) = totalPlayed (schedule s) + int k"
  using assms
proof (induction k arbitrary: s c)
  case 0
  then show ?case by simp
next
  case (Suc k)
  let ?xs = "elems (shuffledOrder (schedule s))"
  let ?s1 = "snd (playNextVideo ok s)"
  from Suc.prems have lt: "c < length ?xs" by simp
  note st = playNextVideo_step [OF Suc.prems(1,2) lt, of ok]
  from lt have pos: "0 < length ?xs" by (cases ?xs) simp_all
  have inside: "Suc c mod length ?xs < length (elems (shuffledOrder (schedule ?s1)))"
    using pos by (simp add: st(3))
  have bound: "Suc c mod length ?xs + k \<le> length (elems (shuffledOrder (schedule ?s1)))"
  proof (cases "Suc c < length ?xs")
    case True
    with Suc.prems(3) show ?thesis by (simp add: st(3))
  next
    case False
    with lt have "Suc c = length ?xs" by simp
    with Suc.prems(3) show ?thesis by (simp add: st(3))
  qed
  note ih = Suc.IH [OF st(4) st(2) bound inside]
  have cursor: "(Suc c mod length ?xs + k) mod length ?xs = (c + Suc k) mod length ?xs"
    by (simp add: mod_add_left_eq)
  have items: "?xs ! c # take k (drop (Suc c mod length ?xs) ?xs) = take (Suc k) (drop c ?xs)"
  proof (cases "Suc c < length ?xs")
    case True
    then show ?thesis using lt by (simp add: Cons_nth_drop_Suc [symmetric])
  next
    case False
    with lt have e: "Suc c = length ?xs" by simp
    with Suc.prems(3) have "k = 0" by simp
    then show ?thesis using lt by (simp add: Cons_nth_drop_Suc [symmetric])
  qed
  from ih st items cursor show ?case
    by (simp add: play_many_Suc del: play_many.simps(2))
qed

lemma play_many_console:
  assumes "\<not> isStaticActive s"
    and "currentIndex (schedule s) = int c"
    and "c + k \<le> length (elems (shuffledOrder (schedule s)))"
    and "c < length (elems (shuffledOrder (schedule s)))"
  shows "count_list (console (snd (play_many ok k s)))
           (LogCycleComplete (length (elems (shuffledOrder (schedule s))))) =
         count_list (console s) (LogCycleComplete (length (elems (shuffledOrder (schedule s)))))
         + (if 0 < k \<and> c + k = length (elems (shuffledOrder (schedule s))) then 1 else 0)"
  using assms
proof (induction k arbitrary: s c)
  case 0
  then show ?case by simp
next
  case (Suc k)
  let ?xs = "elems (shuffledOrder (schedule s))"
  let ?s1 = "snd (playNextVideo ok s)"
  from Suc.prems have lt: "c < length ?xs" by simp
  then have ne: "?xs \<noteq> []" by auto
  note st = playNextVideo_step [OF Suc.prems(1,2) lt, of ok]
  note co = playNextVideo_console [OF Suc.prems(1) ne, of ok]
  show ?case
  proof (cases "Suc c < length ?xs")
    case True
    with Suc.prems(3) have bound: "Suc c + k \<le> length (elems (shuffledOrder (schedule ?s1)))"
      by (simp add: st(3))
    from True have cur: "currentIndex (schedule ?s1) = int (Suc c)" by (simp add: st(2))
    from True have "currentIndex (schedule ?s1) \<noteq> 0" by (simp add: st(2))
    with co have "count_list (console ?s1) (LogCycleComplete (length ?xs)) =
                  count_list (console s) (LogCycleComplete (length ?xs))"
      by simp
    then have step: "count_list (console ?s1) (LogCycleComplete (length ?xs)) =
                  count_list (console s) (LogCycleComplete (length ?xs))" .
    have inside: "Suc c < length (elems (shuffledOrder (schedule ?s1)))"
      using True by (simp add: st(3))
    note ih = Suc.IH [OF st(4) cur bound inside]
    from True have "Suc c \<noteq> length ?xs" by simp
    with ih step st(3) show ?thesis
      by (simp add: play_many_Suc del: play_many.simps(2))
  next
    case False
    with lt have e: "Suc c = length ?xs" by simp
    with Suc.prems(3) have k0: "k = 0" by simp
    from e have "currentIndex (schedule ?s1) = 0" by (simp add: st(2))
    with co have "count_list (console ?s1) (LogCycleComplete (length ?xs)) =
                  count_list (console s) (LogCycleComplete (length ?xs)) + 1"
      by simp
    with k0 e show ?thesis by (simp add: play_many_Suc del: play_many.simps(2))
  qed
qed

text \<open>
  Claim C3, as the code has it. Let the permutation have \<open>N \<ge> 1\<close> items, the cursor
  stand at 0 and the interference flag \<open>isStaticActive\<close> be clear. Then \<open>N\<close> calls of
  \<open>playNextVideo\<close> return the permutation, item by item in its order (so each item once
  when the permutation has no duplicates), and call \<open>N + 1\<close> returns its first item
  again. After \<open>k \<le> N\<close> calls the cursor is \<open>k mod N\<close> and \<open>totalPlayed\<close> has grown by
  \<open>k\<close>; the cycle-complete message is written once, by call \<open>N\<close>, when the cursor wraps
  from \<open>N - 1\<close> to 0.
\<close>

theorem play_cycle_when_clear:
  assumes "\<not> isStaticActive s"
    and "currentIndex (schedule s) = 0"
    and "xs = elems (shuffledOrder (schedule s))"
    and "1 \<le> length xs"
  shows "fst (play_many ok (length xs) s) = xs
       \<and> fst (playNextVideo ok (snd (play_many ok (length xs) s))) = xs ! 0
       \<and> (\<forall>k \<le> length xs.
            fst (play_many ok k s) = take k xs
          \<and> currentIndex (schedule (snd (play_many ok k s))) = int (k mod length xs)
          \<and> totalPlayed (schedule (snd (play_many ok k s))) = totalPlayed (schedule s) + int k
          \<and> count_list (console (snd (play_many ok k s))) (LogCycleComplete (length xs)) =
              count_list (console s) (LogCycleComplete (length xs)) + (if k = length xs then 1 else 0))
       \<and> (distinct xs \<longrightarrow> distinct (fst (play_many ok (length xs) s)))"
proof -
  have c0: "currentIndex (schedule s) = int 0" using assms(2) by simp
  have "0 < length xs" using assms(4) by linarith
  then have pos: "0 < length (elems (shuffledOrder (schedule s)))"
    unfolding assms(3) .
  have part: "fst (play_many ok k s) = take k xs
          \<and> currentIndex (schedule (snd (play_many ok k s))) = int (k mod length xs)
          \<and> shuffledOrder (schedule (snd (play_many ok k s))) = shuffledOrder (schedule s)
          \<and> \<not> isStaticActive (snd (play_many ok k s))
          \<and> totalPlayed (schedule (snd (play_many ok k s))) = totalPlayed (schedule s) + int k"
    if "k \<le> length xs" for k
    using play_many_clear [OF assms(1) c0 _ pos, of k ok] that assms(3) by simp
  have logs: "count_list (console (snd (play_many ok k s))) (LogCycleComplete (length xs)) =
              count_list (console s) (LogCycleComplete (length xs)) + (if k = length xs then 1 else 0)"
    if "k \<le> length xs" for k
    using play_many_console [OF assms(1) c0 _ pos, of k ok] that assms(3) pos by auto
  have full: "fst (play_many ok (length xs) s) = xs" using part [of "length xs"] by simp
  let ?s' = "snd (play_many ok (length xs) s)"
  have cur': "currentIndex (schedule ?s') = int 0" using part [of "length xs"] by simp
  have clear': "\<not> isStaticActive ?s'" using part [of "length xs"] by simp
  have pos': "0 < length (elems (shuffledOrder (schedule ?s')))"
    using part [of "length xs"] pos by simp
  have "fst (playNextVideo ok ?s') = elems (shuffledOrder (schedule ?s')) ! 0"
    by (rule playNextVideo_step(1) [OF clear' cur' pos'])
  then have again: "fst (playNextVideo ok ?s') = xs ! 0"
    using part [of "length xs"] assms(3) by simp
  from full again part logs show ?thesis by simp
qed


theorem play_cycle_when_clear_witness:
  "fst (play_many True 3 demo) = [Val ''a.mp4'', Val ''b.mp4'', Val ''c.mp4'']
   \<and> fst (playNextVideo True (snd (play_many True 3 demo))) = Val ''a.mp4''
   \<and> currentIndex (schedule (snd (play_many True 2 demo))) = 2
   \<and> currentIndex (schedule (snd (play_many True 3 demo))) = 0
   \<and> totalPlayed (schedule (snd (play_many True 3 demo))) = 3
   \<and> count_list (console (snd (play_many True 2 demo))) (LogCycleComplete 3) = 0
   \<and> count_list (console (snd (play_many True 3 demo))) (LogCycleComplete 3) = 1
   \<and> distinct (fst (play_many True 3 demo))"
proof -
  define xs where "xs = elems (shuffledOrder (schedule demo))"
  have xs: "xs = [Val ''a.mp4'', Val ''b.mp4'', Val ''c.mp4'']"
    by (simp add: xs_def demo_def constructor_def array_of_def)
  have len: "length xs = 3" by (simp add: xs)
  have h1: "\<not> isStaticActive demo" by (simp add: demo_def constructor_def)
  have h2: "currentIndex (schedule demo) = 0" by (simp add: demo_def constructor_def)
  have h4: "1 \<le> length xs" by (simp add: len)
  have start: "totalPlayed (schedule demo) = 0" "console demo = []"
    by (simp_all add: demo_def constructor_def)
  note t = play_cycle_when_clear [OF h1 h2 xs_def h4, of True, unfolded len]
  from t have all: "\<forall>k\<le>3.
       currentIndex (schedule (snd (play_many True k demo))) = int (k mod 3)
     \<and> totalPlayed (schedule (snd (play_many True k demo))) = totalPlayed (schedule demo) + int k
     \<and> count_list (console (snd (play_many True k demo))) (LogCycleComplete 3) =
         count_list (console demo) (LogCycleComplete 3) + (if k = 3 then 1 else 0)"
    by simp
  have two: "(2::nat) \<le> 3" and three: "(3::nat) \<le> 3" by simp_all
  from all two have k2: "currentIndex (schedule (snd (play_many True 2 demo))) = 2
     \<and> count_list (console (snd (play_many True 2 demo))) (LogCycleComplete 3) = 0"
    using start by fastforce
  from all three have k3: "currentIndex (schedule (snd (play_many True 3 demo))) = 0
     \<and> totalPlayed (schedule (snd (play_many True 3 demo))) = 3
     \<and> count_list (console (snd (play_many True 3 demo))) (LogCycleComplete 3) = 1"
    using start by fastforce
  from t have "fst (play_many True 3 demo) = xs
     \<and> fst (playNextVideo True (snd (play_many True 3 demo))) = xs ! 0
     \<and> (distinct xs \<longrightarrow> distinct (fst (play_many True 3 demo)))"
    by simp
  with k2 k3 show ?thesis by (simp add: xs)
qed

text \<open>
  Claim C3 as stated (for every schedule with the cursor at 0) fails while interference
  is reported: on the suppressed example three calls return \<open>null\<close> three times and
  serve nothing.
\<close>

theorem play_cycle_suppressed_counterexample:
  "currentIndex (schedule demo_suppressed) = 0
   \<and> elems (shuffledOrder (schedule demo_suppressed)) = [Val ''a.mp4'', Val ''b.mp4'', Val ''c.mp4'']
   \<and> fst (play_many True 3 demo_suppressed) = [Null, Null, Null]
   \<and> totalPlayed (schedule (snd (play_many True 3 demo_suppressed))) = 0"
  by code_simp

subsection \<open>The interference guard\<close>

lemma stopCurrentVideo_frame:
  "isStaticActive (stopCurrentVideo s) = isStaticActive s"
  "config (stopCurrentVideo s) = config s"
  "totalPlayed (schedule (stopCurrentVideo s)) = totalPlayed (schedule s)"
  "currentIndex (schedule (stopCurrentVideo s)) = currentIndex (schedule s)"
  "shuffledOrder (schedule (stopCurrentVideo s)) = shuffledOrder (schedule s)"
  by (simp_all add: stopCurrentVideo_def Let_def say_def clearTimeout_def split: option.split)

lemma onStaticDetected_frame:
  "config (onStaticDetected level s) = config s"
  "totalPlayed (schedule (onStaticDetected level s)) = totalPlayed (schedule s)"
  "currentIndex (schedule (onStaticDetected level s)) = currentIndex (schedule s)"
  "shuffledOrder (schedule (onStaticDetected level s)) = shuffledOrder (schedule s)"
  by (simp_all add: onStaticDetected_def Let_def say_def clearTimeout_def setTimeout_def
      stopCurrentVideo_frame split: option.split)

lemma onStaticDetected_above:
  "staticDetectionThreshold (config s) < level \<Longrightarrow> isStaticActive (onStaticDetected level s)"
  by (simp add: onStaticDetected_def Let_def say_def setTimeout_def stopCurrentVideo_frame)

lemma onStaticDetected_below:
  "level \<le> staticDetectionThreshold (config s) \<Longrightarrow> \<not> isStaticActive (onStaticDetected level s)"
  by (simp add: onStaticDetected_def Let_def say_def clearTimeout_def split: option.split)

lemma onStaticDetected_above_noop:
  "staticDetectionThreshold (config s) < level \<Longrightarrow> isStaticActive s \<Longrightarrow> onStaticDetected level s = s"
  by (simp add: onStaticDetected_def)

lemma onStaticDetected_below_noop:
  "level \<le> staticDetectionThreshold (config s) \<Longrightarrow> \<not> isStaticActive s \<Longrightarrow> onStaticDetected level s = s"
  by (simp add: onStaticDetected_def)

lemma playNextVideo_frame:
  "isStaticActive (snd (playNextVideo ok s)) = isStaticActive s"
  "config (snd (playNextVideo ok s)) = config s"
  by (simp_all add: playNextVideo_def Let_def say_def saveSchedule_def)

lemma generateSchedule_frame:
  "isStaticActive (snd (generateSchedule host force s)) = isStaticActive s"
  "staticDetectionThreshold (config (snd (generateSchedule host force s))) =
     staticDetectionThreshold (config s)"
  by (simp_all add: generateSchedule_def Let_def say_def saveSchedule_def saveConfig_def)

lemma step_threshold:
  "staticDetectionThreshold (config (step s x)) = staticDetectionThreshold (config s)"
  by (cases x) (simp_all add: onStaticDetected_frame playNextVideo_frame generateSchedule_frame
      stopCurrentVideo_frame)

lemma step_keeps_suppressed:
  assumes "isStaticActive s"
    and "\<And>l. x = Report l \<Longrightarrow> staticDetectionThreshold (config s) < l"
  shows "isStaticActive (step s x)"
  using assms
  by (cases x) (simp_all add: onStaticDetected_above playNextVideo_frame generateSchedule_frame
      stopCurrentVideo_frame)

lemma run_keeps_suppressed:
  assumes "isStaticActive s"
    and "\<forall>l. Report l \<in> set ops \<longrightarrow> staticDetectionThreshold (config s) < l"
  shows "isStaticActive (run s ops)"
  using assms unfolding run_def
proof (induction ops arbitrary: s)
  case Nil
  then show ?case by simp
next
  case (Cons x ops)
  have "isStaticActive (step s x)"
    using Cons.prems by (intro step_keeps_suppressed) auto
  moreover have "\<forall>l. Report l \<in> set ops \<longrightarrow> staticDetectionThreshold (config (step s x)) < l"
    using Cons.prems(2) by (simp add: step_threshold)
  ultimately show ?case using Cons.IH by simp
qed

text \<open>
  Claim C6. A report above the threshold leaves \<open>isStaticActive\<close> set, and it stays set
  through any further operations (requests for the next video, calls of
  \<open>generateSchedule\<close>, \<open>stopCurrentVideo\<close>, reports) as long as no report is at or below
  the threshold; a report at or below the threshold leaves it clear. A second report on
  the same side as the first changes nothing at all: the whole scheduler, with its timers
  and its console, is the same as after the first.
\<close>

theorem interference_guard_two_state:
  "(staticDetectionThreshold (config s) < level \<longrightarrow>
      isStaticActive (onStaticDetected level s)
    \<and> ((\<forall>l. Report l \<in> set ops \<longrightarrow> staticDetectionThreshold (config s) < l) \<longrightarrow>
          isStaticActive (run (onStaticDetected level s) ops))
    \<and> (staticDetectionThreshold (config s) < level' \<longrightarrow>
          onStaticDetected level' (onStaticDetected level s) = onStaticDetected level s))
 \<and> (level \<le> staticDetectionThreshold (config s) \<longrightarrow>
      \<not> isStaticActive (onStaticDetected level s)
    \<and> (level' \<le> staticDetectionThreshold (config s) \<longrightarrow>
          onStaticDetected level' (onStaticDetected level s) = onStaticDetected level s))"
proof -
  have cfg: "config (onStaticDetected level s) = config s" by (rule onStaticDetected_frame)
  have a: "isStaticActive (onStaticDetected level s)"
    if "staticDetectionThreshold (config s) < level"
    using that by (rule onStaticDetected_above)
  have b: "isStaticActive (run (onStaticDetected level s) ops)"
    if "staticDetectionThreshold (config s) < level"
      and "\<forall>l. Report l \<in> set ops \<longrightarrow> staticDetectionThreshold (config s) < l"
    using a [OF that(1)] that(2) by (intro run_keeps_suppressed) (simp_all add: cfg)
  have c: "onStaticDetected level' (onStaticDetected level s) = onStaticDetected level s"
    if "staticDetectionThreshold (config s) < level" and "staticDetectionThreshold (config s) < level'"
    using a [OF that(1)] that(2) by (intro onStaticDetected_above_noop) (simp_all add: cfg)
  have d: "\<not> isStaticActive (onStaticDetected level s)"
    if "level \<le> staticDetectionThreshold (config s)"
    using that by (rule onStaticDetected_below)
  have e: "onStaticDetected level' (onStaticDetected level s) = onStaticDetected level s"
    if "level \<le> staticDetectionThreshold (config s)" and "level' \<le> staticDetectionThreshold (config s)"
    using d [OF that(1)] that(2) by (intro onStaticDetected_below_noop) (simp_all add: cfg)
  from a b c d e show ?thesis by blast
qed

lemma demo_threshold: "staticDetectionThreshold (config demo) = 3 / 10"
  by (simp add: demo_def constructor_def default_config_def)

theorem interference_guard_two_state_witness:
  "isStaticActive (onStaticDetected (1 / 2) demo)
   \<and> isStaticActive (run (onStaticDetected (1 / 2) demo)
        [Advance True, Report (2 / 5), Generate demo_host False, Stop, Report (9 / 10)])
   \<and> onStaticDetected (9 / 10) (onStaticDetected (1 / 2) demo) = onStaticDetected (1 / 2) demo
   \<and> \<not> isStaticActive (onStaticDetected (1 / 5) demo_suppressed)
   \<and> onStaticDetected (1 / 10) (onStaticDetected (1 / 5) demo_suppressed) =
       onStaticDetected (1 / 5) demo_suppressed"
proof -
  have thr: "staticDetectionThreshold (config demo_suppressed) = 3 / 10"
    by (simp add: demo_suppressed_def onStaticDetected_frame demo_threshold)
  have ops: "\<forall>l. Report l \<in> set [Advance True, Report (2 / 5), Generate demo_host False, Stop, Report (9 / 10)]
               \<longrightarrow> staticDetectionThreshold (config demo) < l"
    by (auto simp: demo_threshold)
  from interference_guard_two_state
         [of demo "1 / 2" "[Advance True, Report (2 / 5), Generate demo_host False, Stop, Report (9 / 10)]" "9 / 10"]
       ops
  have up: "isStaticActive (onStaticDetected (1 / 2) demo)
   \<and> isStaticActive (run (onStaticDetected (1 / 2) demo)
        [Advance True, Report (2 / 5), Generate demo_host False, Stop, Report (9 / 10)])
   \<and> onStaticDetected (9 / 10) (onStaticDetected (1 / 2) demo) = onStaticDetected (1 / 2) demo"
    by (simp add: demo_threshold)
  from interference_guard_two_state [of demo_suppressed "1 / 5" "[]" "1 / 10"]
  have down: "\<not> isStaticActive (onStaticDetected (1 / 5) demo_suppressed)
   \<and> onStaticDetected (1 / 10) (onStaticDetected (1 / 5) demo_suppressed) =
       onStaticDetected (1 / 5) demo_suppressed"
    by (simp add: thr)
  from up down show ?thesis by simp
qed

subsection \<open>Loading a configuration\<close>

lemma spread_as_patch: "spread_config c (as_patch c') = c'"
  by (simp add: spread_config_def as_patch_def)

text \<open>
  Claim C7, as the code has it. \<open>loadConfig\<close> checks no value. Every field present in
  the file replaces the current one as it stands, the threshold among them; a field that
  is absent keeps its current value; a file that \<open>saveConfig\<close> wrote gives back the
  configuration that was saved. A missing file changes nothing, and a file that cannot be
  read is reported on the console and leaves the configuration as it was.
\<close>

theorem loadConfig_adopts_persisted_values:
  "(configFile s = Json d \<longrightarrow>
      config (loadConfig s) = spread_config (config s) d
    \<and> staticDetectionThreshold (config (loadConfig s)) =
        (case p_staticDetectionThreshold d of Some v \<Rightarrow> v
         | None \<Rightarrow> staticDetectionThreshold (config s)))
 \<and> (configFile s = Json (as_patch c) \<longrightarrow> config (loadConfig s) = c)
 \<and> (configFile s = Missing \<longrightarrow> loadConfig s = s)
 \<and> (configFile s = Corrupt \<longrightarrow>
      config (loadConfig s) = config s \<and> console (loadConfig s) = console s @ [LogConfigError])"
  by (simp add: loadConfig_def say_def spread_as_patch) (simp add: spread_config_def)

theorem loadConfig_adopts_persisted_values_witness:
  "config (loadConfig misconfigured) = default_config\<lparr>staticDetectionThreshold := - 1\<rparr>
   \<and> staticDetectionThreshold (config (loadConfig misconfigured)) = - 1
   \<and> config (loadConfig ((constructor Missing (Json (as_patch default_config))) :: string scheduler))
       = default_config
   \<and> loadConfig demo = demo
   \<and> config (loadConfig ((constructor Missing Corrupt) :: string scheduler)) = default_config"
proof -
  have f: "configFile misconfigured = Json negative_threshold"
    "config misconfigured = default_config"
    by (simp_all add: misconfigured_def constructor_def)
  have g: "configFile ((constructor Missing (Json (as_patch default_config))) :: string scheduler)
             = Json (as_patch default_config)"
    by (simp add: constructor_def)
  have h: "configFile demo = Missing" by (simp add: demo_def constructor_def)
  have k: "configFile ((constructor Missing Corrupt) :: string scheduler) = Corrupt"
    "config ((constructor Missing Corrupt) :: string scheduler) = default_config"
    by (simp_all add: constructor_def)
  from loadConfig_adopts_persisted_values [of misconfigured negative_threshold default_config] f
  have 1: "config (loadConfig misconfigured) = default_config\<lparr>staticDetectionThreshold := - 1\<rparr>
   \<and> staticDetectionThreshold (config (loadConfig misconfigured)) = - 1"
    by (simp add: spread_config_def negative_threshold_def default_config_def)
  from loadConfig_adopts_persisted_values
         [of "(constructor Missing (Json (as_patch default_config))) :: string scheduler"
             "as_patch default_config" default_config] g
  have 2: "config (loadConfig ((constructor Missing (Json (as_patch default_config))) :: string scheduler))
       = default_config"
    by (simp add: spread_as_patch)
  from loadConfig_adopts_persisted_values [of demo negative_threshold default_config] h
  have 3: "loadConfig demo = demo" by simp
  from loadConfig_adopts_persisted_values
         [of "(constructor Missing Corrupt) :: string scheduler" negative_threshold default_config] k
  have 4: "config (loadConfig ((constructor Missing Corrupt) :: string scheduler)) = default_config"
    by simp
  from 1 2 3 4 show ?thesis by simp
qed

text \<open>
  Claim C7 as stated fails: a file with the threshold \<open>-1\<close> is adopted, the loaded
  threshold is negative and is not the default.
\<close>

theorem loadConfig_negative_threshold_counterexample:
  "configFile misconfigured = Json negative_threshold
   \<and> p_staticDetectionThreshold negative_threshold = Some (- 1)
   \<and> staticDetectionThreshold (config (loadConfig misconfigured)) = - 1
   \<and> staticDetectionThreshold (config (loadConfig misconfigured)) < 0
   \<and> staticDetectionThreshold (config (loadConfig misconfigured)) \<noteq> staticDetectionThreshold default_config"
  by (simp add: misconfigured_def constructor_def loadConfig_def say_def spread_config_def
      negative_threshold_def default_config_def)

subsection \<open>Keeping or regenerating the schedule\<close>

lemma generateSchedule_empty:
  "videoFiles host = [] \<Longrightarrow> generateSchedule host force s = (False, say LogNoVideosFound s)"
  by (simp add: generateSchedule_def)

lemma generateSchedule_keep:
  "videoFiles host \<noteq> [] \<Longrightarrow> \<not> shouldRegenerate host force s \<Longrightarrow>
   generateSchedule host force s = (True, say LogUsingExisting s)"
  by (simp add: generateSchedule_def)

lemma generateSchedule_regenerate:
  assumes "videoFiles host \<noteq> []" and "shouldRegenerate host force s"
  shows "fst (generateSchedule host force s) = True"
    and "schedule (snd (generateSchedule host force s)) =
          (schedule s)
            \<lparr>shuffledOrder := shuffled_items (mathRandom host) (videoFiles host)
                (Some (generateUTCSeed (config s) (localTZA host) (newDate host) None)),
             currentIndex := 0, totalPlayed := 0, generated := Some (dateNow host)\<rparr>"
    and "config (snd (generateSchedule host force s)) =
          (config s)\<lparr>shuffleSeed := Some (generateUTCSeed (config s) (localTZA host) (newDate host) None)\<rparr>"
  using assms
  by (simp_all add: generateSchedule_def Let_def say_def saveConfig_def saveSchedule_def)

lemma shouldRegenerate_triggers:
  "shouldRegenerate host force s \<longleftrightarrow>
     force
   \<or> nodeEnv host = Some ''production''
   \<or> (\<exists>v. buildEnv host = Some v \<and> v \<noteq> [])
   \<or> regenerateOnBuild (config s)
   \<or> generated (schedule s) = None \<or> generated (schedule s) = Some 0
   \<or> length (elems (shuffledOrder (schedule s))) \<noteq> length (videoFiles host)
   \<or> (\<exists>g. generated (schedule s) = Some g \<and> scheduleRebuildInterval (config s) \<le> dateNow host - g)"
  by (auto simp: shouldRegenerate_def isBuildEnvironment_def truthy_str_def truthy_num_def
      scheduleAge_def age_ge_def split: option.splits)


text \<open>
  Claim C5, as the code has it. The result of \<open>generateSchedule\<close> says whether a schedule
  is ready, not whether one was made: it is \<open>false\<close> exactly when there are no videos, and
  then schedule and configuration are untouched. With videos and no trigger it returns
  \<open>true\<close> and keeps schedule and configuration; with videos and a trigger it returns
  \<open>true\<close>, installs the shuffle of the videos under a fresh seed, sets the cursor to 0 and
  stamps the schedule with the current time. The triggers are: the argument, a production
  or build environment, \<open>regenerateOnBuild\<close>, no previous schedule, a different number
  of videos, and an age of at least the rebuild interval.
\<close>

theorem generateSchedule_result:
  "(videoFiles host = [] \<longrightarrow>
      fst (generateSchedule host force s) = False
    \<and> schedule (snd (generateSchedule host force s)) = schedule s
    \<and> config (snd (generateSchedule host force s)) = config s)
 \<and> (videoFiles host \<noteq> [] \<and> \<not> shouldRegenerate host force s \<longrightarrow>
      fst (generateSchedule host force s) = True
    \<and> schedule (snd (generateSchedule host force s)) = schedule s
    \<and> config (snd (generateSchedule host force s)) = config s)
 \<and> (videoFiles host \<noteq> [] \<and> shouldRegenerate host force s \<longrightarrow>
      fst (generateSchedule host force s) = True
    \<and> currentIndex (schedule (snd (generateSchedule host force s))) = 0
    \<and> generated (schedule (snd (generateSchedule host force s))) = Some (dateNow host)
    \<and> shuffledOrder (schedule (snd (generateSchedule host force s))) =
        shuffled_items (mathRandom host) (videoFiles host)
          (Some (generateUTCSeed (config s) (localTZA host) (newDate host) None)))
 \<and> (fst (generateSchedule host force s) \<longleftrightarrow> videoFiles host \<noteq> [])
 \<and> (shouldRegenerate host force s \<longleftrightarrow>
        force
      \<or> nodeEnv host = Some ''production''
      \<or> (\<exists>v. buildEnv host = Some v \<and> v \<noteq> [])
      \<or> regenerateOnBuild (config s)
      \<or> generated (schedule s) = None \<or> generated (schedule s) = Some 0
      \<or> length (elems (shuffledOrder (schedule s))) \<noteq> length (videoFiles host)
      \<or> (\<exists>g. generated (schedule s) = Some g
              \<and> scheduleRebuildInterval (config s) \<le> dateNow host - g))"
proof -
  have empty: "fst (generateSchedule host force s) = False
    \<and> schedule (snd (generateSchedule host force s)) = schedule s
    \<and> config (snd (generateSchedule host force s)) = config s"
    if "videoFiles host = []"
    using generateSchedule_empty [OF that, of force s] by (simp add: say_def)
  have keep: "fst (generateSchedule host force s) = True
    \<and> schedule (snd (generateSchedule host force s)) = schedule s
    \<and> config (snd (generateSchedule host force s)) = config s"
    if "videoFiles host \<noteq> []" and "\<not> shouldRegenerate host force s"
    using generateSchedule_keep [OF that] by (simp add: say_def)
  have regen: "fst (generateSchedule host force s) = True
    \<and> currentIndex (schedule (snd (generateSchedule host force s))) = 0
    \<and> generated (schedule (snd (generateSchedule host force s))) = Some (dateNow host)
    \<and> shuffledOrder (schedule (snd (generateSchedule host force s))) =
        shuffled_items (mathRandom host) (videoFiles host)
          (Some (generateUTCSeed (config s) (localTZA host) (newDate host) None))"
    if "videoFiles host \<noteq> []" and "shouldRegenerate host force s"
    using generateSchedule_regenerate [OF that] by simp
  have ret: "fst (generateSchedule host force s) \<longleftrightarrow> videoFiles host \<noteq> []"
    using empty keep regen by (cases "videoFiles host = []"; cases "shouldRegenerate host force s") simp_all
  from empty keep regen ret shouldRegenerate_triggers [of host force s] show ?thesis
    by blast
qed

theorem generateSchedule_result_witness:
  "fst (generateSchedule demo_host False demo) = True
   \<and> schedule (snd (generateSchedule demo_host False demo)) = schedule demo
   \<and> fst (generateSchedule demo_host True demo_played) = True
   \<and> currentIndex (schedule (snd (generateSchedule demo_host True demo_played))) = 0
   \<and> generated (schedule (snd (generateSchedule demo_host True demo_played))) = Some 1759752600000
   \<and> fst (generateSchedule (demo_host\<lparr>videoFiles := []\<rparr>) True demo_played) = False
   \<and> schedule (snd (generateSchedule (demo_host\<lparr>videoFiles := []\<rparr>) True demo_played)) =
       schedule demo_played"
proof -
  have v: "videoFiles demo_host \<noteq> []" "dateNow demo_host = 1759752600000"
    by (simp_all add: demo_host_def)
  have nr: "\<not> shouldRegenerate demo_host False demo"
    by (simp add: shouldRegenerate_def isBuildEnvironment_def truthy_str_def truthy_num_def
        scheduleAge_def age_ge_def demo_def demo_host_def constructor_def default_config_def
        array_of_def)
  have r: "shouldRegenerate demo_host True demo_played"
    by (simp add: shouldRegenerate_def)
  have e: "videoFiles (demo_host\<lparr>videoFiles := []\<rparr>) = []" by simp
  from generateSchedule_result [of demo_host False demo] v nr
  have 1: "fst (generateSchedule demo_host False demo) = True
   \<and> schedule (snd (generateSchedule demo_host False demo)) = schedule demo"
    by simp
  from generateSchedule_result [of demo_host True demo_played] v r
  have 2: "fst (generateSchedule demo_host True demo_played) = True
   \<and> currentIndex (schedule (snd (generateSchedule demo_host True demo_played))) = 0
   \<and> generated (schedule (snd (generateSchedule demo_host True demo_played))) = Some 1759752600000"
    by simp
  from generateSchedule_result [of "demo_host\<lparr>videoFiles := []\<rparr>" True demo_played] e
  have 3: "fst (generateSchedule (demo_host\<lparr>videoFiles := []\<rparr>) True demo_played) = False
   \<and> schedule (snd (generateSchedule (demo_host\<lparr>videoFiles := []\<rparr>) True demo_played)) =
       schedule demo_played"
    by simp
  from 1 2 3 show ?thesis by simp
qed

text \<open>
  Claim C5 as stated (\<open>false\<close> when no trigger holds) fails on the example: there are
  videos, a schedule of the same length exists that is ten minutes old, nothing signals a
  build and nothing is forced, and the call returns \<open>true\<close> with the schedule kept.
\<close>

theorem generateSchedule_keep_returns_true_counterexample:
  "videoFiles demo_host \<noteq> []
   \<and> generated (schedule demo) = Some 1759752000000
   \<and> length (elems (shuffledOrder (schedule demo))) = length (videoFiles demo_host)
   \<and> dateNow demo_host - 1759752000000 < scheduleRebuildInterval (config demo)
   \<and> nodeEnv demo_host = None \<and> buildEnv demo_host = None
   \<and> \<not> regenerateOnBuild (config demo)
   \<and> fst (generateSchedule demo_host False demo) = True
   \<and> schedule (snd (generateSchedule demo_host False demo)) = schedule demo"
  by (simp add: generateSchedule_def shouldRegenerate_def isBuildEnvironment_def truthy_str_def
      truthy_num_def scheduleAge_def age_ge_def demo_def demo_host_def constructor_def
      default_config_def array_of_def say_def)

lemma step_totalPlayed:
  assumes "\<And>h f. x \<noteq> Generate h f"
  shows "totalPlayed (schedule s) \<le> totalPlayed (schedule (step s x))"
proof (cases x)
  case (Report l)
  then show ?thesis by (simp add: onStaticDetected_frame)
next
  case (Advance ok)
  then show ?thesis by (simp add: playNextVideo_def Let_def say_def saveSchedule_def)
next
  case (Generate h f)
  with assms [of h f] show ?thesis by blast
next
  case Stop
  then show ?thesis by (simp add: stopCurrentVideo_frame)
qed

lemma run_totalPlayed:
  assumes "\<forall>h f. Generate h f \<notin> set ops"
  shows "totalPlayed (schedule s) \<le> totalPlayed (schedule (run s ops))"
  using assms unfolding run_def
proof (induction ops arbitrary: s)
  case Nil
  then show ?case by simp
next
  case (Cons x ops)
  have "totalPlayed (schedule s) \<le> totalPlayed (schedule (step s x))"
    using Cons.prems by (intro step_totalPlayed) auto
  moreover have "totalPlayed (schedule (step s x)) \<le> totalPlayed (schedule (foldl step (step s x) ops))"
    using Cons.prems by (intro Cons.IH) auto
  ultimately show ?case by simp
qed

text \<open>
  Claim C8, as the code has it. \<open>totalPlayed\<close> does not decrease when a video is
  requested (also when the cursor wraps), on an interference report or when the current
  video is stopped, hence over any sequence of these operations. \<open>generateSchedule\<close>
  leaves it alone when it keeps the schedule or finds no videos, and sets it to 0 when it
  regenerates.
\<close>

theorem totalPlayed_reset_only_by_regeneration:
  "totalPlayed (schedule s) \<le> totalPlayed (schedule (snd (playNextVideo ok s)))
 \<and> totalPlayed (schedule (onStaticDetected level s)) = totalPlayed (schedule s)
 \<and> totalPlayed (schedule (stopCurrentVideo s)) = totalPlayed (schedule s)
 \<and> ((\<forall>h f. Generate h f \<notin> set ops) \<longrightarrow>
       totalPlayed (schedule s) \<le> totalPlayed (schedule (run s ops)))
 \<and> totalPlayed (schedule (snd (generateSchedule host force s))) =
     (if videoFiles host \<noteq> [] \<and> shouldRegenerate host force s then 0
      else totalPlayed (schedule s))"
proof -
  have "totalPlayed (schedule s) \<le> totalPlayed (schedule (snd (playNextVideo ok s)))"
    using step_totalPlayed [of "Advance ok" s] by simp
  moreover have "totalPlayed (schedule (snd (generateSchedule host force s))) =
     (if videoFiles host \<noteq> [] \<and> shouldRegenerate host force s then 0
      else totalPlayed (schedule s))"
  proof (cases "videoFiles host = []")
    case True
    then show ?thesis by (simp add: generateSchedule_empty say_def)
  next
    case False
    then show ?thesis
      by (cases "shouldRegenerate host force s")
         (simp_all add: generateSchedule_keep generateSchedule_regenerate say_def)
  qed
  ultimately show ?thesis
    using run_totalPlayed [of ops s]
    by (simp add: onStaticDetected_frame stopCurrentVideo_frame)
qed

theorem totalPlayed_reset_only_by_regeneration_witness:
  "totalPlayed (schedule demo) \<le> totalPlayed (schedule (snd (playNextVideo True demo)))
   \<and> totalPlayed (schedule demo)
       \<le> totalPlayed (schedule (run demo
            [Advance True, Report (1 / 2), Advance True, Stop, Report 0, Advance True, Advance True,
             Advance True, Advance True]))
   \<and> totalPlayed (schedule (snd (generateSchedule demo_host True demo_played))) = 0
   \<and> totalPlayed (schedule (snd (generateSchedule demo_host False demo_played))) =
       totalPlayed (schedule demo_played)"
proof -
  have v: "videoFiles demo_host \<noteq> []" by (simp add: demo_host_def)
  have r: "shouldRegenerate demo_host True demo_played" by (simp add: shouldRegenerate_def)
  have nr: "\<not> shouldRegenerate demo_host False demo_played" by code_simp
  have g: "\<forall>h f. Generate h f \<notin> set [Advance True, Report (1 / 2), Advance True, Stop, Report 0,
             Advance True, Advance True, Advance True, (Advance True :: string operation)]"
    by simp
  from totalPlayed_reset_only_by_regeneration
        [of demo True "1 / 2" "[Advance True, Report (1 / 2), Advance True, Stop, Report 0, Advance True,
             Advance True, Advance True, Advance True]" demo_host True] g
  have 1: "totalPlayed (schedule demo) \<le> totalPlayed (schedule (snd (playNextVideo True demo)))
   \<and> totalPlayed (schedule demo)
       \<le> totalPlayed (schedule (run demo
            [Advance True, Report (1 / 2), Advance True, Stop, Report 0, Advance True, Advance True,
             Advance True, Advance True]))"
    by simp
  from totalPlayed_reset_only_by_regeneration [of demo_played True 0 "[]" demo_host True] v r
  have 2: "totalPlayed (schedule (snd (generateSchedule demo_host True demo_played))) = 0"
    by simp
  from totalPlayed_reset_only_by_regeneration [of demo_played True 0 "[]" demo_host False] v nr
  have 3: "totalPlayed (schedule (snd (generateSchedule demo_host False demo_played))) =
       totalPlayed (schedule demo_played)"
    by simp
  from 1 2 3 show ?thesis by simp
qed

text \<open>
  Claim C8 as stated (no operation lowers \<open>totalPlayed\<close>, regeneration included)
  fails: after three videos the count is 3, and a forced regeneration puts it back to 0.
\<close>

theorem totalPlayed_reset_counterexample:
  "totalPlayed (schedule demo_played) = 3
   \<and> totalPlayed (schedule (snd (generateSchedule demo_host True demo_played))) = 0
   \<and> totalPlayed (schedule (snd (generateSchedule demo_host True demo_played)))
       < totalPlayed (schedule demo_played)"
  by code_simp

subsection \<open>The shuffle and its argument\<close>

lemma swap_elems_length: "length (swap_elems h p i j) = length h"
  by (simp add: swap_elems_def Let_def)

lemma swap_elems_other: "q \<noteq> p \<Longrightarrow> swap_elems h p i j ! q = h ! q"
  by (simp add: swap_elems_def Let_def)

lemma shuffle_seeded_frame:
  "length (shuffle_seeded h p seed n) = length h
   \<and> (\<forall>q. q \<noteq> p \<longrightarrow> shuffle_seeded h p seed n ! q = h ! q)"
proof (induction n arbitrary: h seed)
  case 0
  show ?case by simp
next
  case (Suc n)
  show ?case by (simp add: Let_def Suc.IH swap_elems_other swap_elems_length)
qed

lemma shuffle_random_frame:
  "length (shuffle_random rnd h p k n) = length h
   \<and> (\<forall>q. q \<noteq> p \<longrightarrow> shuffle_random rnd h p k n ! q = h ! q)"
proof (induction n arbitrary: h k)
  case 0
  show ?case by simp
next
  case (Suc n)
  show ?case by (simp add: Let_def Suc.IH swap_elems_other swap_elems_length)
qed

text \<open>
  Claim C10. \<open>shuffleArray\<close> returns the address of an array that did not exist before
  (the store grows by exactly this one array), which is therefore not the argument, and
  every array of the old store, the argument among them, is what it was: all swaps go to
  the copy. This holds for every seed, \<open>null\<close> included, and every source of random
  numbers.
\<close>

theorem shuffleArray_fresh_and_input_unchanged:
  "fst (shuffleArray rnd h array seed) = length h
 \<and> length (snd (shuffleArray rnd h array seed)) = Suc (length h)
 \<and> (array < length h \<longrightarrow>
      fst (shuffleArray rnd h array seed) \<noteq> array
    \<and> snd (shuffleArray rnd h array seed) ! array = h ! array)
 \<and> (\<forall>q < length h. snd (shuffleArray rnd h array seed) ! q = h ! q)"
proof -
  let ?h1 = "h @ [array_of (elems (h ! array))]"
  have old: "?h1 ! q = h ! q" if "q < length h" for q
    using that by (simp add: nth_append)
  show ?thesis
  proof (cases seed)
    case None
    then have r: "shuffleArray rnd h array seed =
         (length h, shuffle_random rnd ?h1 (length h) 0 (length (elems (?h1 ! length h))))"
      by (simp add: shuffleArray_def Let_def)
    from shuffle_random_frame [of rnd ?h1 "length h" 0 "length (elems (?h1 ! length h))"] old
    show ?thesis unfolding r by auto
  next
    case (Some sd)
    then have r: "shuffleArray rnd h array seed =
         (length h, shuffle_seeded ?h1 (length h) sd (length (elems (?h1 ! length h))))"
      by (simp add: shuffleArray_def Let_def)
    from shuffle_seeded_frame [of ?h1 "length h" sd "length (elems (?h1 ! length h))"] old
    show ?thesis unfolding r by auto
  qed
qed


theorem shuffleArray_fresh_and_input_unchanged_witness:
  "fst (shuffleArray (\<lambda>_. 0) demo_heap 0 (Some 631377)) = 1
   \<and> length (snd (shuffleArray (\<lambda>_. 0) demo_heap 0 (Some 631377))) = 2
   \<and> snd (shuffleArray (\<lambda>_. 0) demo_heap 0 (Some 631377)) ! 0 = demo_heap ! 0
   \<and> elems (snd (shuffleArray (\<lambda>_. 0) demo_heap 0 (Some 631377)) ! 0) =
       [Val ''a.mp4'', Val ''b.mp4'', Val ''c.mp4'']
   \<and> elems (snd (shuffleArray (\<lambda>_. 0) demo_heap 0 (Some 631377)) ! 1) =
       [Val ''a.mp4'', Val ''c.mp4'', Val ''b.mp4'']
   \<and> snd (shuffleArray (\<lambda>_. 1 / 2) demo_heap 0 None) ! 0 = demo_heap ! 0"
proof -
  have len: "length demo_heap = 1" "(0::nat) < length demo_heap"
    by (simp_all add: demo_heap_def)
  have in0: "elems (demo_heap ! 0) = [Val ''a.mp4'', Val ''b.mp4'', Val ''c.mp4'']"
    by (simp add: demo_heap_def array_of_def)
  have out: "elems (snd (shuffleArray (\<lambda>_. 0) demo_heap 0 (Some 631377)) ! 1) =
       [Val ''a.mp4'', Val ''c.mp4'', Val ''b.mp4'']"
    by code_simp
  from shuffleArray_fresh_and_input_unchanged [of "\<lambda>_. 0" demo_heap 0 "Some 631377"] len
  have 1: "fst (shuffleArray (\<lambda>_. 0) demo_heap 0 (Some 631377)) = 1
   \<and> length (snd (shuffleArray (\<lambda>_. 0) demo_heap 0 (Some 631377))) = 2
   \<and> snd (shuffleArray (\<lambda>_. 0) demo_heap 0 (Some 631377)) ! 0 = demo_heap ! 0"
    by simp
  from shuffleArray_fresh_and_input_unchanged [of "\<lambda>_. 1 / 2" demo_heap 0 None] len
  have 2: "snd (shuffleArray (\<lambda>_. 1 / 2) demo_heap 0 None) ! 0 = demo_heap ! 0"
    by simp
  from 1 2 in0 out show ?thesis by simp
qed

subsection \<open>The shuffle as a permutation\<close>

text \<open>
  With a seed that is not negative the generator stays within \<open>0 .. 233279\<close>, the index
  \<open>randomIndex\<close> within \<open>0 .. currentIndex - 1\<close>, and every swap exchanges two elements of
  the array: the result is a permutation of the argument. The model computes
  \<open>Math.floor(random() * currentIndex)\<close> exactly; the doubles of the program give the same
  index unless \<open>seed * currentIndex\<close> is a multiple of 233280, where rounding may give the
  index below, and in both cases an index within the same bounds.
\<close>

lemma swap_elems_in_range:
  assumes "p < length h" and "i < length (elems (h ! p))" and "j < length (elems (h ! p))"
  shows "swap_elems h p (int i) (int j) =
           h[p := (h ! p)\<lparr>elems := (elems (h ! p))[i := elems (h ! p) ! j, j := elems (h ! p) ! i]\<rparr>]"
  using assms by (simp add: swap_elems_def Let_def aget_def aset_def)

lemma swap_elems_mset:
  assumes "p < length h" and "i < length (elems (h ! p))" and "j < length (elems (h ! p))"
  shows "mset (elems (swap_elems h p (int i) (int j) ! p)) = mset (elems (h ! p))"
    and "length (elems (swap_elems h p (int i) (int j) ! p)) = length (elems (h ! p))"
    and "extra (swap_elems h p (int i) (int j) ! p) = extra (h ! p)"
  using assms by (simp_all add: swap_elems_in_range mset_swap)

lemma lcg_range:
  "0 \<le> seed \<Longrightarrow> 0 \<le> js_rem (seed * 9301 + 49297) 233280
                  \<and> js_rem (seed * 9301 + 49297) 233280 < 233280"
  by (simp add: js_rem_def sgn_if)

lemma randomIndex_range:
  assumes "0 \<le> s" and "s < 233280"
  shows "0 \<le> \<lfloor>(of_int s / 233280 :: rat) * of_nat (Suc n)\<rfloor>"
    and "\<lfloor>(of_int s / 233280 :: rat) * of_nat (Suc n)\<rfloor> < int (Suc n)"
proof -
  have q: "0 \<le> (of_int s / 233280 :: rat)" "(of_int s / 233280 :: rat) < 1"
    using assms by simp_all
  show "0 \<le> \<lfloor>(of_int s / 233280 :: rat) * of_nat (Suc n)\<rfloor>"
    using q(1) by simp
  have "(of_int s / 233280 :: rat) * of_nat (Suc n) < 1 * of_nat (Suc n)"
    using q(2) by (intro mult_strict_right_mono) simp_all
  then show "\<lfloor>(of_int s / 233280 :: rat) * of_nat (Suc n)\<rfloor> < int (Suc n)"
    by (simp add: floor_less_iff)
qed

lemma shuffle_seeded_permutes:
  assumes "0 \<le> seed" and "p < length h" and "n \<le> length (elems (h ! p))"
  shows "mset (elems (shuffle_seeded h p seed n ! p)) = mset (elems (h ! p))
       \<and> extra (shuffle_seeded h p seed n ! p) = extra (h ! p)"
  using assms
proof (induction n arbitrary: h seed)
  case 0
  show ?case by simp
next
  case (Suc n)
  let ?s = "js_rem (seed * 9301 + 49297) 233280"
  let ?r = "\<lfloor>(of_int ?s / 233280 :: rat) * of_nat (Suc n)\<rfloor>"
  let ?h = "swap_elems h p (int n) ?r"
  from lcg_range [OF Suc.prems(1)] have s: "0 \<le> ?s" "?s < 233280" by simp_all
  from randomIndex_range [OF s, of n] have r: "0 \<le> ?r" "?r < int (Suc n)" by simp_all
  from Suc.prems(3) have n: "n < length (elems (h ! p))" by simp
  from r Suc.prems(3) have j: "nat ?r < length (elems (h ! p))" by linarith
  from r(1) have rj: "?r = int (nat ?r)" by simp
  from swap_elems_mset [OF Suc.prems(2) n j] rj
  have sw: "mset (elems (?h ! p)) = mset (elems (h ! p))"
    "length (elems (?h ! p)) = length (elems (h ! p))"
    "extra (?h ! p) = extra (h ! p)"
    by simp_all
  have "mset (elems (shuffle_seeded ?h p ?s n ! p)) = mset (elems (?h ! p))
       \<and> extra (shuffle_seeded ?h p ?s n ! p) = extra (?h ! p)"
    using s(1) Suc.prems(2) n sw(2) by (intro Suc.IH) (simp_all add: swap_elems_length)
  with sw show ?case by (simp add: Let_def)
qed

lemma shuffleArray_permutation_nonneg_seed:
  assumes "0 \<le> seed" and "array < length h"
  shows "mset (elems (snd (shuffleArray rnd h array (Some seed)) ! fst (shuffleArray rnd h array (Some seed))))
           = mset (elems (h ! array))"
    and "length (elems (snd (shuffleArray rnd h array (Some seed)) ! fst (shuffleArray rnd h array (Some seed))))
           = length (elems (h ! array))"
proof -
  let ?h1 = "h @ [array_of (elems (h ! array))]"
  have e: "elems (?h1 ! length h) = elems (h ! array)" by (simp add: array_of_def)
  have "mset (elems (shuffle_seeded ?h1 (length h) seed (length (elems (?h1 ! length h))) ! length h))
          = mset (elems (?h1 ! length h))"
    using assms(1) by (intro shuffle_seeded_permutes [THEN conjunct1]) simp_all
  then show m: "mset (elems (snd (shuffleArray rnd h array (Some seed)) ! fst (shuffleArray rnd h array (Some seed))))
           = mset (elems (h ! array))"
    by (simp add: shuffleArray_def Let_def array_of_def)
  from mset_eq_length [OF m]
  show "length (elems (snd (shuffleArray rnd h array (Some seed)) ! fst (shuffleArray rnd h array (Some seed))))
           = length (elems (h ! array))" .
qed

lemma shuffled_items_permutation:
  assumes "0 \<le> seed"
  shows "mset (elems (shuffled_items rnd items (Some seed))) = mset (map Val items)"
    and "length (elems (shuffled_items rnd items (Some seed))) = length items"
  using shuffleArray_permutation_nonneg_seed [OF assms, of 0 "[array_of (map Val items)]" rnd]
  by (simp_all add: shuffled_items_def split_beta array_of_def)

text \<open>
  Claim C2 at the seed \<open>-6\<close>. The remainder \<open>%\<close> keeps the sign of the seed, so
  \<open>random()\<close> is negative and \<open>randomIndex\<close> is \<open>-1\<close> in each of the three rounds: the
  swaps exchange an element with the property \<open>shuffled[-1]\<close>. For the array of the three
  videos the result is \<open>[b.mp4, c.mp4, undefined]\<close>: \<open>a.mp4\<close> is lost and the result is
  not a permutation of the argument.
\<close>

theorem shuffleArray_negative_seed_loses_item:
  "elems (snd (shuffleArray (\<lambda>_. 0) demo_heap 0 (Some (- 6))) ! fst (shuffleArray (\<lambda>_. 0) demo_heap 0 (Some (- 6))))
     = [Val ''b.mp4'', Val ''c.mp4'', Undefined]
   \<and> elems (demo_heap ! 0) = [Val ''a.mp4'', Val ''b.mp4'', Val ''c.mp4'']
   \<and> mset (elems (snd (shuffleArray (\<lambda>_. 0) demo_heap 0 (Some (- 6))) ! fst (shuffleArray (\<lambda>_. 0) demo_heap 0 (Some (- 6)))))
       \<noteq> mset (elems (demo_heap ! 0))"
proof -
  have out: "elems (snd (shuffleArray (\<lambda>_. 0) demo_heap 0 (Some (- 6))) ! fst (shuffleArray (\<lambda>_. 0) demo_heap 0 (Some (- 6))))
     = [Val ''b.mp4'', Val ''c.mp4'', Undefined]"
    by code_simp
  have inp: "elems (demo_heap ! 0) = [Val ''a.mp4'', Val ''b.mp4'', Val ''c.mp4'']"
    by (simp add: demo_heap_def array_of_def)
  have "Undefined \<in># mset [Val ''b.mp4'', Val ''c.mp4'', Undefined]" by simp
  moreover have "Undefined \<notin># mset [Val ''a.mp4'', Val ''b.mp4'', Val ''c.mp4'']" by simp
  ultimately have "mset [Val ''b.mp4'', Val ''c.mp4'', (Undefined :: string jsval)]
                    \<noteq> mset [Val ''a.mp4'', Val ''b.mp4'', Val ''c.mp4'']"
    by metis
  with out inp show ?thesis by simp
qed

subsection \<open>Regeneration under the default configuration\<close>

lemma generateSchedule_regenerate_console:
  assumes "videoFiles host \<noteq> []" and "shouldRegenerate host force s"
  shows "console (snd (generateSchedule host force s)) =
           console s @ [LogGenerating (length (videoFiles host))]
           @ (if diskOk host then [LogScheduleSaved] else [LogConfigSaveError, LogScheduleSaveError])
           @ [LogGenerated]"
  using assms
  by (simp add: generateSchedule_def Let_def say_def saveConfig_def saveSchedule_def)

text \<open>
  The default configuration, which every new scheduler starts with, has
  \<open>regenerateOnBuild\<close> on. With this flag on and at least one video, every call of
  \<open>generateSchedule\<close> finds \<open>shouldRegenerate\<close> true whatever the argument, the age of
  the schedule and the number of videos: it returns \<open>true\<close>, installs what \<open>shuffleArray\<close>
  returns for the videos under the seed of the moment, sets cursor and \<open>totalPlayed\<close> to
  0, and writes the messages of a regeneration, never that of the kept schedule. When the
  seed is not negative the new order is a permutation of the videos.
\<close>

lemma generateSchedule_regenerates_with_flag:
  "regenerateOnBuild default_config
 \<and> config (constructor sf cf) = default_config
 \<and> (regenerateOnBuild (config s) \<and> videoFiles host \<noteq> [] \<longrightarrow>
      shouldRegenerate host force s
    \<and> fst (generateSchedule host force s) = True
    \<and> schedule (snd (generateSchedule host force s)) =
        (schedule s)
          \<lparr>shuffledOrder := shuffled_items (mathRandom host) (videoFiles host)
              (Some (generateUTCSeed (config s) (localTZA host) (newDate host) None)),
           currentIndex := 0, totalPlayed := 0, generated := Some (dateNow host)\<rparr>
    \<and> currentIndex (schedule (snd (generateSchedule host force s))) = 0
    \<and> totalPlayed (schedule (snd (generateSchedule host force s))) = 0
    \<and> console (snd (generateSchedule host force s)) =
         console s @ [LogGenerating (length (videoFiles host))]
         @ (if diskOk host then [LogScheduleSaved] else [LogConfigSaveError, LogScheduleSaveError])
         @ [LogGenerated]
    \<and> (0 \<le> generateUTCSeed (config s) (localTZA host) (newDate host) None \<longrightarrow>
          mset (elems (shuffledOrder (schedule (snd (generateSchedule host force s))))) =
            mset (map Val (videoFiles host))))"
proof -
  have d: "regenerateOnBuild default_config" "config (constructor sf cf) = default_config"
    by (simp_all add: default_config_def constructor_def)
  have main: "shouldRegenerate host force s
    \<and> fst (generateSchedule host force s) = True
    \<and> schedule (snd (generateSchedule host force s)) =
        (schedule s)
          \<lparr>shuffledOrder := shuffled_items (mathRandom host) (videoFiles host)
              (Some (generateUTCSeed (config s) (localTZA host) (newDate host) None)),
           currentIndex := 0, totalPlayed := 0, generated := Some (dateNow host)\<rparr>
    \<and> console (snd (generateSchedule host force s)) =
         console s @ [LogGenerating (length (videoFiles host))]
         @ (if diskOk host then [LogScheduleSaved] else [LogConfigSaveError, LogScheduleSaveError])
         @ [LogGenerated]"
    if on: "regenerateOnBuild (config s)" and v: "videoFiles host \<noteq> []"
  proof -
    from on have r: "shouldRegenerate host force s"
      by (simp add: shouldRegenerate_def isBuildEnvironment_def)
    from r generateSchedule_regenerate(1,2) [OF v r] generateSchedule_regenerate_console [OF v r]
    show ?thesis by simp
  qed
  have perm: "mset (elems (shuffledOrder (schedule (snd (generateSchedule host force s))))) =
            mset (map Val (videoFiles host))"
    if "regenerateOnBuild (config s)" and "videoFiles host \<noteq> []"
      and "0 \<le> generateUTCSeed (config s) (localTZA host) (newDate host) None"
    using main [OF that(1,2)] shuffled_items_permutation(1) [OF that(3)] by simp
  from d main perm show ?thesis by simp
qed

lemma generateSchedule_regenerates_with_flag_example:
  "shouldRegenerate demo_host False (demo_played\<lparr>config := default_config\<rparr>)
   \<and> fst (generateSchedule demo_host False (demo_played\<lparr>config := default_config\<rparr>)) = True
   \<and> currentIndex (schedule (snd (generateSchedule demo_host False (demo_played\<lparr>config := default_config\<rparr>)))) = 0
   \<and> totalPlayed (schedule (snd (generateSchedule demo_host False (demo_played\<lparr>config := default_config\<rparr>)))) = 0
   \<and> mset (elems (shuffledOrder (schedule (snd (generateSchedule demo_host False
        (demo_played\<lparr>config := default_config\<rparr>)))))) =
       mset [Val ''a.mp4'', Val ''b.mp4'', Val ''c.mp4'']
   \<and> totalPlayed (schedule (demo_played\<lparr>config := default_config\<rparr>)) = 3"
proof -
  have on: "regenerateOnBuild (config (demo_played\<lparr>config := default_config\<rparr>))"
    by (simp add: default_config_def)
  have v: "videoFiles demo_host \<noteq> []" "videoFiles demo_host = [''a.mp4'', ''b.mp4'', ''c.mp4'']"
    by (simp_all add: demo_host_def)
  have sd: "generateUTCSeed default_config (localTZA demo_host) (newDate demo_host) None = 631377"
    by code_simp
  have tp: "totalPlayed (schedule demo_played) = 3" by code_simp
  have sd': "0 \<le> generateUTCSeed (config (demo_played\<lparr>config := default_config\<rparr>))
                    (localTZA demo_host) (newDate demo_host) None"
    by (simp add: sd)
  note t = generateSchedule_regenerates_with_flag
         [where s = "demo_played\<lparr>config := default_config\<rparr>" and host = demo_host
            and force = False and sf = Missing and cf = Missing]
  from t on v(1) have main:
    "shouldRegenerate demo_host False (demo_played\<lparr>config := default_config\<rparr>)
     \<and> fst (generateSchedule demo_host False (demo_played\<lparr>config := default_config\<rparr>)) = True
     \<and> currentIndex (schedule (snd (generateSchedule demo_host False (demo_played\<lparr>config := default_config\<rparr>)))) = 0
     \<and> totalPlayed (schedule (snd (generateSchedule demo_host False (demo_played\<lparr>config := default_config\<rparr>)))) = 0"
    by blast
  from t on v(1) sd' have "mset (elems (shuffledOrder (schedule (snd (generateSchedule demo_host False
        (demo_played\<lparr>config := default_config\<rparr>)))))) = mset (map Val (videoFiles demo_host))"
    by blast
  then have perm: "mset (elems (shuffledOrder (schedule (snd (generateSchedule demo_host False
        (demo_played\<lparr>config := default_config\<rparr>)))))) =
       mset [Val ''a.mp4'', Val ''b.mp4'', Val ''c.mp4'']"
    by (simp add: v(2))
  have "totalPlayed (schedule (demo_played\<lparr>config := default_config\<rparr>)) = 3"
    by (simp add: tp)
  with main perm show ?thesis by blast
qed

text \<open>
  Claim C9 on a new scheduler with the default configuration, on a host two hours east of
  Greenwich whose clock reads the epoch. The call regenerates, returns \<open>true\<close> and sets
  cursor and \<open>totalPlayed\<close> to 0, as on every call under the defaults. But local midnight
  of 1 January 1970 lies two hours before the epoch, so \<open>daysSinceEpoch\<close> is \<open>-1\<close> and the
  seed is \<open>-31\<close>; with a negative seed \<open>randomIndex\<close> is \<open>-1\<close> in every round, and the
  order installed for the three videos is \<open>[b.mp4, c.mp4, undefined]\<close>: \<open>a.mp4\<close> is
  missing, and the new order is not a permutation of the videos.
\<close>

theorem generateSchedule_default_at_epoch_installs_no_permutation:
  "config fresh = default_config
   \<and> regenerateOnBuild (config fresh)
   \<and> videoFiles epoch_host = [''a.mp4'', ''b.mp4'', ''c.mp4'']
   \<and> generateUTCSeed (config fresh) (localTZA epoch_host) (newDate epoch_host) None = - 31
   \<and> fst (generateSchedule epoch_host False fresh) = True
   \<and> currentIndex (schedule (snd (generateSchedule epoch_host False fresh))) = 0
   \<and> totalPlayed (schedule (snd (generateSchedule epoch_host False fresh))) = 0
   \<and> elems (shuffledOrder (schedule (snd (generateSchedule epoch_host False fresh)))) =
       [Val ''b.mp4'', Val ''c.mp4'', Undefined]
   \<and> mset (elems (shuffledOrder (schedule (snd (generateSchedule epoch_host False fresh)))))
       \<noteq> mset (map Val (videoFiles epoch_host))"
proof -
  have cfg: "config fresh = default_config" "regenerateOnBuild (config fresh)"
    by (simp_all add: fresh_def constructor_def default_config_def)
  have v: "videoFiles epoch_host = [''a.mp4'', ''b.mp4'', ''c.mp4'']"
    by (simp add: epoch_host_def)
  have seed: "generateUTCSeed (config fresh) (localTZA epoch_host) (newDate epoch_host) None = - 31"
    by code_simp
  have ret: "fst (generateSchedule epoch_host False fresh) = True"
    by code_simp
  have cur: "currentIndex (schedule (snd (generateSchedule epoch_host False fresh))) = 0"
    by code_simp
  have cnt: "totalPlayed (schedule (snd (generateSchedule epoch_host False fresh))) = 0"
    by code_simp
  have out: "elems (shuffledOrder (schedule (snd (generateSchedule epoch_host False fresh)))) =
       [Val ''b.mp4'', Val ''c.mp4'', Undefined]"
    by code_simp
  have "Undefined \<in># mset [Val ''b.mp4'', Val ''c.mp4'', (Undefined :: string jsval)]" by simp
  moreover have "Undefined \<notin># mset (map Val [''a.mp4'', ''b.mp4'', ''c.mp4''])" by simp
  ultimately have "mset [Val ''b.mp4'', Val ''c.mp4'', (Undefined :: string jsval)]
                    \<noteq> mset (map Val [''a.mp4'', ''b.mp4'', ''c.mp4''])"
    by metis
  with cfg v seed ret cur cnt out show ?thesis by simp
qed

subsection \<open>The seed and the time zone of the host\<close>

text \<open>The calendar on known dates, among them a leap day and a day before 1970.\<close>

lemma calendar_examples:
  "civil_from_days 0 = (1970, 1, 1)"
  "civil_from_days (- 1) = (1969, 12, 31)"
  "civil_from_days 11016 = (2000, 2, 29)"
  "civil_from_days 20367 = (2025, 10, 6)"
  "days_from_civil 1970 1 1 = 0"
  "days_from_civil 2000 2 29 = 11016"
  "days_from_civil 2025 10 6 = 20367"
  "getUTCMonth 1759752000000 = 9"
  by code_simp+

text \<open>
  Claim C1 at the instant 2025-10-06T12:00:00Z, in daily mode. The UTC date is read
  correctly (day 20367, the 6th of October 2025), but \<open>new Date(year, month, date)\<close> is
  midnight of that date in the zone of the host. On a host at UTC this is day 20367 and
  the seed is 631377; on a host two hours east of Greenwich it is 22:00 UTC of the day
  before, \<open>Math.floor\<close> gives day 20366 and the seed is 631346. Two hosts in different
  zones get different seeds for the same instant.
\<close>

theorem generateUTCSeed_depends_on_host_zone:
  "generateUTCSeed default_config 0 1759752000000 (Some 1759752000000) = 631377
   \<and> generateUTCSeed default_config 7200000 1759752000000 (Some 1759752000000) = 631346
   \<and> Day 1759752000000 = 20367
   \<and> civil_from_days 20367 = (2025, 10, 6)
   \<and> generateUTCSeed default_config 0 1759752000000 (Some 1759752000000)
       \<noteq> generateUTCSeed default_config 7200000 1759752000000 (Some 1759752000000)"
  by code_simp

text \<open>
  On one host, or on hosts with the same offset, two instants of the same UTC day do give
  the same seed.
\<close>

lemma generateUTCSeed_same_day_same_zone:
  assumes "Day t1 = Day t2"
  shows "generateUTCSeed (cfg\<lparr>dailySeedReset := True\<rparr>) tza now1 (Some t1) =
         generateUTCSeed (cfg\<lparr>dailySeedReset := True\<rparr>) tza now2 (Some t2)"
  using assms
  by (simp add: generateUTCSeed_def getUTCFullYear_def getUTCMonth_def getUTCDate_def)

end
